theory Spec2Isabelle
  imports Main "HOL-Library.Sublist"
begin

section \<open>Python values, errors and the world outside the process\<close>

text \<open>
  The engine of \<^verbatim>\<open>AAA/task_class.py\<close> talks to the outside only through files of the
  working directory, the status text file and child processes. The model makes these
  explicit:
  \<^item> an exception is a value of \<open>error\<close>; a function that can raise returns
    \<open>error + 'a\<close> (\<open>Inl\<close> is the raise) next to the state it has reached, so that what was
    written before a raise stays visible;
  \<^item> the file system is a map from path strings to nodes. Paths are compared as the
    strings the code builds (no normalisation of \<^verbatim>\<open>..\<close> or doubled separators), with the
    POSIX rules of \<^verbatim>\<open>os.path\<close> and of the file operations. A string is a list of code
    points below 256. Directories on the way to a file are not tracked: \<^verbatim>\<open>os.chdir\<close> into
    a directory with a name, opening a file for writing there and launching a child
    process there are taken to succeed, and so is removing an existing regular file (no
    permission failures); \<^verbatim>\<open>os.chdir('')\<close> and a launch with \<^verbatim>\<open>cwd=''\<close> raise, as the empty
    path names no directory;
  \<^item> the status sink (\<^verbatim>\<open>LogText\<close>) is the list of the lines appended to it, kept
    apart from the files of the working directory;
  \<^item> \<open>events\<close> records, in order, every child process launched and every file opened
    for writing by the engine itself.
\<close>

datatype error =
    IndexError
  | TypeError
  | FileNotFoundError
  | IsADirectoryError
  | NotADirectoryError
  | OSError
  | Exception string

datatype node = File string | Dir

datatype event = Spawned string | Wrote string

record world =
  cwd :: string
  fs :: "string \<Rightarrow> node option"
  status :: "string list"
  events :: "event list"

text \<open>
  What the child processes do is a parameter: \<open>ext_run cmd dir w\<close> are the files left
  by the command line \<open>cmd\<close>, launched in the world \<open>w\<close> with \<^verbatim>\<open>cwd=dir\<close>, when the
  engine gets control back; \<open>popen_stdout\<close> is what such a process prints; \<open>elapsed\<close> is
  the formatted time \<^verbatim>\<open>LogText.write_time\<close> prints.
\<close>

record env =
  ext_run :: "string \<Rightarrow> string option \<Rightarrow> world \<Rightarrow> (string \<Rightarrow> node option)"
  popen_stdout :: "string \<Rightarrow> string option \<Rightarrow> world \<Rightarrow> string"
  elapsed :: string

subsection \<open>\<^verbatim>\<open>LogText\<close>\<close>

definition write_update :: "string \<Rightarrow> world \<Rightarrow> world" where
  "write_update text w = w\<lparr>status := status w @ [text]\<rparr>"

definition write_time :: "env \<Rightarrow> world \<Rightarrow> world" where
  "write_time e w = write_update (elapsed e) w"

subsection \<open>\<^verbatim>\<open>os.path\<close> and the file operations\<close>

text \<open>\<^verbatim>\<open>posixpath.join\<close> for two components; more components fold from the left.\<close>

definition path_join :: "string \<Rightarrow> string \<Rightarrow> string" where
  "path_join a b =
     (if prefix ''/'' b then b
      else if a = [] \<or> last a = CHR ''/'' then a @ b
      else a @ ''/'' @ b)"

text \<open>
  \<^verbatim>\<open>os.path.splitext(p)[0]\<close>: the extension starts at the last dot of the last path
  component, unless only dots come before it in that component.
\<close>

definition splitext_root :: "string \<Rightarrow> string" where
  "splitext_root p =
     (let base_rev = takeWhile (\<lambda>c. c \<noteq> CHR ''/'') (rev p);
          ext_rev = takeWhile (\<lambda>c. c \<noteq> CHR ''.'') base_rev;
          stem_rev = drop (Suc (length ext_rev)) base_rev
      in if length ext_rev < length base_rev \<and> list_ex (\<lambda>c. c \<noteq> CHR ''.'') stem_rev
         then take (length p - Suc (length ext_rev)) p
         else p)"

definition path_exists :: "world \<Rightarrow> string \<Rightarrow> bool" where
  "path_exists w p = (case fs w p of None \<Rightarrow> False | Some _ \<Rightarrow> True)"

definition isfile :: "world \<Rightarrow> string \<Rightarrow> bool" where
  "isfile w p = (case fs w p of Some (File _) \<Rightarrow> True | _ \<Rightarrow> False)"

definition isdir :: "world \<Rightarrow> string \<Rightarrow> bool" where
  "isdir w p = (case fs w p of Some Dir \<Rightarrow> True | _ \<Rightarrow> False)"

text \<open>\<^verbatim>\<open>open(p).read()\<close>: the text of a regular file.\<close>

definition read_file :: "world \<Rightarrow> string \<Rightarrow> error + string" where
  "read_file w p =
     (case fs w p of
        None \<Rightarrow> Inl FileNotFoundError
      | Some Dir \<Rightarrow> Inl IsADirectoryError
      | Some (File c) \<Rightarrow> Inr c)"

text \<open>\<^verbatim>\<open>os.remove\<close>.\<close>

definition os_remove :: "string \<Rightarrow> world \<Rightarrow> (error + unit) \<times> world" where
  "os_remove p w =
     (case fs w p of
        None \<Rightarrow> (Inl FileNotFoundError, w)
      | Some Dir \<Rightarrow> (Inl IsADirectoryError, w)
      | Some (File _) \<Rightarrow> (Inr (), w\<lparr>fs := (fs w)(p := None)\<rparr>))"

text \<open>\<open>q\<close> is the path \<open>p\<close> itself or lies below the directory \<open>p\<close>.\<close>

definition covers :: "string \<Rightarrow> string \<Rightarrow> bool" where
  "covers p q = (q = p \<or> prefix (p @ ''/'') q)"

text \<open>\<^verbatim>\<open>shutil.rmtree\<close>: the directory goes with everything below it.\<close>

definition rmtree :: "string \<Rightarrow> world \<Rightarrow> world" where
  "rmtree p w = w\<lparr>fs := (\<lambda>q. if covers p q then None else fs w q)\<rparr>"

text \<open>
  \<^verbatim>\<open>os.rename\<close> (POSIX). A regular file replaces a regular file at the target and
  cannot replace a directory. A directory moves with the entries below it; it can
  replace an empty directory only, cannot move below itself, and renaming it to itself
  changes nothing.
\<close>

definition dir_not_empty :: "world \<Rightarrow> string \<Rightarrow> bool" where
  "dir_not_empty w p = (\<exists>q. prefix (p @ ''/'') q \<and> fs w q \<noteq> None)"

definition os_rename :: "string \<Rightarrow> string \<Rightarrow> world \<Rightarrow> (error + unit) \<times> world" where
  "os_rename src dst w =
     (case fs w src of
        None \<Rightarrow> (Inl FileNotFoundError, w)
      | Some (File c) \<Rightarrow>
          (if isdir w dst then (Inl IsADirectoryError, w)
           else (Inr (), w\<lparr>fs := (fs w)(src := None, dst := Some (File c))\<rparr>))
      | Some Dir \<Rightarrow>
          (if src = dst then (Inr (), w)
           else if prefix (src @ ''/'') dst then (Inl OSError, w)
           else if isfile w dst then (Inl NotADirectoryError, w)
           else if isdir w dst \<and> dir_not_empty w dst then (Inl OSError, w)
           else (Inr (), w\<lparr>fs := (\<lambda>q. if covers dst q then fs w (src @ drop (length dst) q)
                                       else if covers src q then None
                                       else fs w q)\<rparr>)))"

text \<open>
  \<^verbatim>\<open>open(p, "w")\<close> creates or truncates the file; \<^verbatim>\<open>f.write(text)\<close> appends to what
  the file holds since it was opened.
\<close>

definition open_w :: "string \<Rightarrow> world \<Rightarrow> (error + unit) \<times> world" where
  "open_w p w =
     (if isdir w p then (Inl IsADirectoryError, w)
      else (Inr (), w\<lparr>fs := (fs w)(p := Some (File [])), events := events w @ [Wrote p]\<rparr>))"

definition file_write :: "string \<Rightarrow> string \<Rightarrow> world \<Rightarrow> world" where
  "file_write p text w =
     w\<lparr>fs := (fs w)(p := Some (File ((case fs w p of Some (File c) \<Rightarrow> c | _ \<Rightarrow> []) @ text)))\<rparr>"

text \<open>
  \<^verbatim>\<open>subprocess.call(cmd, cwd=dir)\<close> and \<^verbatim>\<open>Popen(cmd, shell=True, cwd=dir)\<close>: one child
  process. With the empty string as \<^verbatim>\<open>cwd\<close> the launch raises FileNotFoundError and the
  command is not run. \<^verbatim>\<open>os.system\<close> is used for \<^verbatim>\<open>chmod\<close> only, which changes no file
  content.
\<close>

definition subprocess_call ::
  "env \<Rightarrow> string \<Rightarrow> string option \<Rightarrow> world \<Rightarrow> (error + unit) \<times> world" where
  "subprocess_call e cmd dir w =
     (if dir = Some [] then (Inl FileNotFoundError, w)
      else (Inr (), w\<lparr>fs := ext_run e cmd dir w, events := events w @ [Spawned cmd]\<rparr>))"

definition os_system :: "string \<Rightarrow> world \<Rightarrow> world" where
  "os_system cmd w = w\<lparr>events := events w @ [Spawned cmd]\<rparr>"

text \<open>\<^verbatim>\<open>str(n)\<close> for an integer.\<close>

function str_nat :: "nat \<Rightarrow> string" where
  "str_nat n = (if n < 10 then [''0123456789'' ! n] else str_nat (n div 10) @ [''0123456789'' ! (n mod 10)])"
  by pat_completeness auto
termination
  by (relation "measure id") auto

declare str_nat.simps [simp del]

definition str_int :: "int \<Rightarrow> string" where
  "str_int i = (if i < 0 then ''-'' @ str_nat (nat (- i)) else str_nat (nat i))"

text \<open>\<^verbatim>\<open>f.readlines()\<close>: every line keeps its newline; the last one may lack it.\<close>

fun readlines_from :: "string \<Rightarrow> string \<Rightarrow> string list" where
  "readlines_from cur [] = (if cur = [] then [] else [cur])"
| "readlines_from cur (c # cs) =
     (if c = CHR 0x0A then (cur @ [c]) # readlines_from [] cs
      else readlines_from (cur @ [c]) cs)"

definition readlines :: "string \<Rightarrow> string list" where
  "readlines text = readlines_from [] text"

section \<open>\<^verbatim>\<open>AAA/helper_functions.py\<close>\<close>

subsection \<open>\<^verbatim>\<open>string_to_word_list\<close>\<close>

text \<open>
  The loop \<^verbatim>\<open>for c in s\<close> with its two variables: a word is appended only when a space
  is met; what \<open>temp_word\<close> holds at the end of the string is not appended.
\<close>

fun word_loop :: "string list \<Rightarrow> string \<Rightarrow> string \<Rightarrow> string list" where
  "word_loop word_list temp_word [] = word_list"
| "word_loop word_list temp_word (c # s) =
     (if c \<noteq> CHR '' '' then word_loop word_list (temp_word @ [c]) s
      else word_loop (word_list @ [temp_word]) [] s)"

definition string_to_word_list :: "string \<Rightarrow> string list" where
  "string_to_word_list s = word_loop [] [] s"

subsection \<open>\<^verbatim>\<open>find_job_id_from_exec_output\<close>\<close>

text \<open>\<^verbatim>\<open>c.isdigit()\<close>: among the code points below 256, the ASCII digits and the
  superscripts two, three and one.\<close>

definition isdigit :: "char \<Rightarrow> bool" where
  "isdigit c = (c \<in> set ''0123456789'' \<or> c \<in> set [CHR 0xB2, CHR 0xB3, CHR 0xB9])"

text \<open>
  The loop over \<^verbatim>\<open>enumerate(word_list)\<close>, on the words from \<open>index\<close> on:
  \<^verbatim>\<open>word_list[index + 1]\<close> is the head of the remaining words and raises IndexError when
  \<^verbatim>\<open>'Job'\<close> is the last word.
\<close>

fun job_loop :: "string \<Rightarrow> string list \<Rightarrow> error + string" where
  "job_loop val [] = Inr val"
| "job_loop val (item # rest) =
     (if item = ''Job'' then
        (case rest of
           [] \<Rightarrow> Inl IndexError
         | nxt # _ \<Rightarrow> job_loop (filter isdigit nxt) rest)
      else job_loop val rest)"

definition find_job_id_from_exec_output :: "string \<Rightarrow> error + string" where
  "find_job_id_from_exec_output output_string =
     job_loop (''no job id in: '' @ output_string) (string_to_word_list output_string)"

subsection \<open>\<^verbatim>\<open>find_lock_error_syndrome\<close>\<close>

text \<open>\<^verbatim>\<open>needle in line\<close> for strings.\<close>

fun str_in :: "string \<Rightarrow> string \<Rightarrow> bool" where
  "str_in needle [] = (needle = [])"
| "str_in needle (c # cs) = (prefix needle (c # cs) \<or> str_in needle cs)"

definition error_syndrome :: string where
  "error_syndrome = ''may be opened in another instance of the application.''"

text \<open>The path \<^verbatim>\<open>open\<close> receives: built from the current directory when a sub folder is
  given, relative to it otherwise.\<close>

definition path_in :: "world \<Rightarrow> string option \<Rightarrow> string \<Rightarrow> string" where
  "path_in w sub_folder file_name =
     (case sub_folder of
        Some sf \<Rightarrow> path_join (path_join (path_join (path_join (cwd w) '''') sf) '''') file_name
      | None \<Rightarrow> path_join (cwd w) file_name)"

definition find_lock_error_syndrome :: "string \<Rightarrow> string option \<Rightarrow> world \<Rightarrow> error + bool" where
  "find_lock_error_syndrome job_name sub_folder w =
     (case read_file w (path_in w sub_folder job_name) of
        Inl err \<Rightarrow> Inl err
      | Inr text \<Rightarrow> Inr (list_ex (str_in error_syndrome) (readlines text)))"

subsection \<open>\<^verbatim>\<open>detect_errors_from_log_file\<close>\<close>

text \<open>The inner loop over the words of one line: the value of \<open>report_line\<close> after it.\<close>

definition report_line :: "bool \<Rightarrow> string \<Rightarrow> bool" where
  "report_line display_warnings line =
     list_ex (\<lambda>word. word = ''[error]'' \<or> (word = ''[warning]'' \<and> display_warnings))
       (string_to_word_list line)"

text \<open>
  What one round of the outer loop sends to the status: the line and up to three
  following ones (the IndexError past the end of the file is caught).
\<close>

definition report_at :: "bool \<Rightarrow> string list \<Rightarrow> nat \<Rightarrow> string list" where
  "report_at display_warnings lines i =
     (if report_line display_warnings (lines ! i) then take 4 (drop i lines) else [])"

definition detect_errors_from_log_file ::
  "string \<Rightarrow> string option \<Rightarrow> bool \<Rightarrow> world \<Rightarrow> (error + unit) \<times> world" where
  "detect_errors_from_log_file log_file_name sub_folder display_warnings w =
     (case read_file w (path_in w sub_folder log_file_name) of
        Inl err \<Rightarrow> (Inl err, w)
      | Inr text \<Rightarrow>
          (let lines = readlines text;
               w1 = write_update (''Checking for errors and warnings in: '' @ log_file_name) w
           in (Inr (), fold (\<lambda>i. fold write_update (report_at display_warnings lines i))
                         [0..<length lines] w1)))"

subsection \<open>\<^verbatim>\<open>clean_project_files\<close>\<close>

definition file_to_check :: "string \<Rightarrow> bool \<Rightarrow> bool \<Rightarrow> string list" where
  "file_to_check project_name clean_aedt_file clean_aedtresults =
     [project_name @ ''.aedt.q.completed'',
      project_name @ ''.aedt.batchinfo'',
      project_name @ ''.aedt.lock'',
      project_name @ ''.aedt.temp'',
      project_name @ ''.aedt.auto'']
     @ (if clean_aedt_file then [project_name @ ''.aedt''] else [])
     @ (if clean_aedtresults then [project_name @ ''.aedtresults''] else [])"

text \<open>The body of the loop, for one name, in the directory \<open>dir\<close> the process has moved to.\<close>

definition clean_one :: "string \<Rightarrow> string \<Rightarrow> world \<Rightarrow> world" where
  "clean_one dir file_name w =
     (let p = path_join dir file_name;
          w1 = (if isfile w p
                then write_update (''Removed '' @ file_name) (snd (os_remove p w))
                else w)
      in if isdir w1 p then write_update (''Removed '' @ file_name) (rmtree p w1) else w1)"

text \<open>\<^verbatim>\<open>os.chdir(d)\<close>: the directory the process is in afterwards, \<open>d\<close> being resolved
  against the current directory (an absolute \<open>d\<close> is taken as it is). The empty path
  raises FileNotFoundError.\<close>

definition os_chdir :: "world \<Rightarrow> string \<Rightarrow> error + string" where
  "os_chdir w d = (if d = [] then Inl FileNotFoundError else Inr (path_join (cwd w) d))"

text \<open>\<^verbatim>\<open>if sub_folder is not None: os.chdir(sub_folder)\<close>: the directory in which the
  names are looked up.\<close>

definition work_dir :: "world \<Rightarrow> string option \<Rightarrow> error + string" where
  "work_dir w sub_folder = (case sub_folder of None \<Rightarrow> Inr (cwd w) | Some sf \<Rightarrow> os_chdir w sf)"

text \<open>The function returns to \<^verbatim>\<open>initial_dir\<close> at its end, so the current directory of the
  world is the same before and after; when \<^verbatim>\<open>os.chdir\<close> raises nothing has been touched.\<close>

definition clean_project_files ::
  "string \<Rightarrow> bool \<Rightarrow> bool \<Rightarrow> string option \<Rightarrow> world \<Rightarrow> (error + unit) \<times> world" where
  "clean_project_files project_name clean_aedt_file clean_aedtresults sub_folder w =
     (case work_dir w sub_folder of
        Inl err \<Rightarrow> (Inl err, w)
      | Inr dir \<Rightarrow>
          (Inr (), fold (clean_one dir)
                     (file_to_check project_name clean_aedt_file clean_aedtresults) w))"

section \<open>\<^verbatim>\<open>AAA/specific_types.py\<close>: \<^verbatim>\<open>SimulationResources\<close>\<close>

record simulation_resources =
  cores :: int
  time :: string
  RAM :: "int option"
  scratch :: "int option"

section \<open>\<^verbatim>\<open>AAA/Run_Job.py\<close>\<close>

subsection \<open>\<^verbatim>\<open>run_local_job\<close>\<close>

text \<open>Concatenating \<^verbatim>\<open>None\<close> to a string raises TypeError, before the process is launched.\<close>

definition run_local_job ::
  "env \<Rightarrow> string option \<Rightarrow> string option \<Rightarrow> string option \<Rightarrow> string \<Rightarrow> string option \<Rightarrow>
   string option \<Rightarrow> world \<Rightarrow> (error + unit) \<times> world" where
  "run_local_job e ansys_exec_address design_name setup_to_analyse aedt_file_name job_log_name
     sub_folder w =
     (let job_log_name = (case job_log_name of None \<Rightarrow> ''job.log'' | Some n \<Rightarrow> n);
          cmd_options = ''-features=beta -ng '' @ ''-monitor -logfile '' @ job_log_name @ '' -batchsolve ''
      in case (ansys_exec_address, design_name, setup_to_analyse) of
           (Some address, Some design, Some setup) \<Rightarrow>
             subprocess_call e
               (''cmd /c'' @ '' '' @ address @ '' '' @ cmd_options @ '' '' @ design @ '':'' @ setup
                  @ '' '' @ aedt_file_name) sub_folder w
         | _ \<Rightarrow> (Inl TypeError, w))"

subsection \<open>\<^verbatim>\<open>run_euler_job\<close>\<close>

text \<open>The four lines written to \<^verbatim>\<open>'batch.cfg '\<close> (the name ends with a space), opened
  relative to the current directory.\<close>

definition write_batch_cfg :: "world \<Rightarrow> (error + unit) \<times> world" where
  "write_batch_cfg w =
     (let g = path_join (cwd w) ''batch.cfg '' in
      case open_w g w of
        (Inl err, w1) \<Rightarrow> (Inl err, w1)
      | (Inr _, w1) \<Rightarrow>
          (Inr (), file_write g (''$end '' @ [CHR 0x27] @ ''Config'' @ [CHR 0x27, CHR 0x0A])
                  (file_write g ([CHR 0x27] @ ''HFSS/HPCLicenseType'' @ [CHR 0x27] @ ''=''
                                   @ [CHR 0x27] @ ''pool'' @ [CHR 0x27, CHR 0x0A])
                  (file_write g ([CHR 0x27] @ ''HFSS/NumCoresPerDistributedTask'' @ [CHR 0x27]
                                   @ ''=1'' @ [CHR 0x0A])
                  (file_write g (''$begin '' @ [CHR 0x27] @ ''Config'' @ [CHR 0x27, CHR 0x0A]) w1)))))"

definition run_euler_job ::
  "env \<Rightarrow> string \<Rightarrow> simulation_resources option \<Rightarrow> string option \<Rightarrow> string option \<Rightarrow>
   string option \<Rightarrow> string option \<Rightarrow> string option \<Rightarrow> string option \<Rightarrow> world \<Rightarrow>
   (error + string) \<times> world" where
  "run_euler_job e aedt_file_name resources_requested name_bash_file script_name design_name
     setup_to_analyse job_log_name sub_folder w =
     (let name_bash_file = (case name_bash_file of None \<Rightarrow> ''temporary_bash_file.sh'' | Some n \<Rightarrow> n);
          job_log_name = (case job_log_name of None \<Rightarrow> ''job.log'' | Some n \<Rightarrow> n)
      in if script_name \<noteq> None \<and> (setup_to_analyse \<noteq> None \<or> design_name \<noteq> None)
         then (Inl (Exception ''Cannot run a script and analyse a setup simultaneously''), w)
         else
           (let f = path_in w sub_folder name_bash_file in
            case open_w f w of
              (Inl err, w1) \<Rightarrow> (Inl err, w1)
            | (Inr _, w1) \<Rightarrow>
                (let w2 = file_write f (''module load ansys_em/19.5'' @ [CHR 0x0A]) w1 in
                 case resources_requested of
                   None \<Rightarrow> (Inl TypeError, w2)
                 | Some r \<Rightarrow>
                     (let exec_str = ''bsub'' @ '' '' @ ''-n '' @ str_int (cores r) @ '' ''
                                       @ ''-W '' @ time r @ '' '';
                          exec_str = (case RAM r of
                                        None \<Rightarrow> exec_str
                                      | Some m \<Rightarrow> exec_str @ ''-R '' @ [CHR 0x22] @ ''rusage[mem=''
                                                   @ str_int m @ '']'' @ [CHR 0x22] @ '' '');
                          exec_str = (case scratch r of
                                        None \<Rightarrow> exec_str
                                      | Some m \<Rightarrow> exec_str @ ''-R '' @ [CHR 0x22] @ ''rusage[scratch=''
                                                   @ str_int m @ '']'' @ [CHR 0x22] @ '' '');
                          (res, exec_str, w3) =
                            (case script_name of
                               Some script \<Rightarrow>
                                 (Inr (), exec_str @ ''ansysedt -features=beta'' @ '' ''
                                            @ ''-ng -runscriptandexit'' @ '' '' @ script @ '' ''
                                            @ aedt_file_name @ [CHR 0x0A], w2)
                             | None \<Rightarrow>
                                 (case (setup_to_analyse, design_name) of
                                    (Some setup, Some design) \<Rightarrow>
                                      (let exec_str = exec_str @ [CHR 0x27]
                                                        @ ''ansysedt -monitor -distributed -ng'' @ '' ''
                                                        @ ''-logfile '' @ job_log_name @ '' '';
                                           (res, exec_str, w3) =
                                             (if cores r > 1 then
                                                (case write_batch_cfg w2 of
                                                   (Inl err, w3) \<Rightarrow> (Inl err, exec_str, w3)
                                                 | (Inr _, w3) \<Rightarrow>
                                                     (Inr (),
                                                      exec_str @ ''-batchoptions batch.cfg'' @ '' ''
                                                        @ ''-machinelist numcores='' @ str_int (cores r)
                                                        @ '' '' @ ''-auto NumDistributedVariations=''
                                                        @ str_int (cores r) @ '' '', w3))
                                              else (Inr (), exec_str, w2))
                                       in (res,
                                           exec_str @ ''-batchsolve '' @ [CHR 0x22] @ design @ '':''
                                             @ setup @ [CHR 0x22] @ '' '' @ aedt_file_name
                                             @ [CHR 0x27, CHR 0x0A], w3))
                                  | _ \<Rightarrow> (Inr (), exec_str, w2)))
                      in case res of
                           Inl err \<Rightarrow> (Inl err, w3)
                         | Inr _ \<Rightarrow>
                             (let w4 = file_write f exec_str w3;
                                  w5 = os_system (''chmod 755 '' @ name_bash_file) w4
                              in case subprocess_call e (''./'' @ name_bash_file) sub_folder w5 of
                                   (Inl err, w6) \<Rightarrow> (Inl err, w6)
                                 | (Inr _, w6) \<Rightarrow>
                                     (let output_string =
                                            popen_stdout e (''./'' @ name_bash_file) sub_folder w5
                                      in (find_job_id_from_exec_output output_string, w6)))))))"

subsection \<open>\<^verbatim>\<open>run_job\<close>\<close>

text \<open>The function has no branch for other values of \<open>exec_option\<close>, and no
  \<^verbatim>\<open>return\<close> after the local run: both give \<^verbatim>\<open>None\<close>.\<close>

definition run_job ::
  "env \<Rightarrow> string option \<Rightarrow> string \<Rightarrow> string \<Rightarrow> string option \<Rightarrow> string option \<Rightarrow> string option \<Rightarrow>
   simulation_resources option \<Rightarrow> string option \<Rightarrow> string option \<Rightarrow> world \<Rightarrow>
   (error + string option) \<times> world" where
  "run_job e setup_to_analyse aedt_file_name exec_option design_name ansys_exec_address
     job_log_name resources_requested bash_file_name sub_folder w =
     (if exec_option = ''local'' then
        (case run_local_job e ansys_exec_address design_name setup_to_analyse aedt_file_name
                job_log_name sub_folder w of
           (Inl err, w') \<Rightarrow> (Inl err, w')
         | (Inr _, w') \<Rightarrow> (Inr None, w'))
      else if exec_option = ''euler'' then
        (case run_euler_job e aedt_file_name resources_requested bash_file_name None design_name
                setup_to_analyse job_log_name sub_folder w of
           (Inl err, w') \<Rightarrow> (Inl err, w')
         | (Inr job_id, w') \<Rightarrow> (Inr (Some job_id), w'))
      else (Inr None, w))"

section \<open>\<^verbatim>\<open>AAA/Execute_Script.py\<close>\<close>

definition local_script_execution ::
  "env \<Rightarrow> string \<Rightarrow> string \<Rightarrow> string option \<Rightarrow> string option \<Rightarrow> world \<Rightarrow> (error + unit) \<times> world" where
  "local_script_execution e script_name aedt_file_name ansys_exec_address sub_folder w =
     (let cmd_options = ''-features=beta -ng -runscriptandexit'' in
      case ansys_exec_address of
        None \<Rightarrow> (Inl TypeError, w)
      | Some address \<Rightarrow>
          subprocess_call e
            (''cmd /c'' @ '' '' @ address @ '' '' @ cmd_options @ '' '' @ script_name @ '' ''
               @ aedt_file_name) sub_folder w)"

definition execute_script ::
  "env \<Rightarrow> string \<Rightarrow> string \<Rightarrow> string \<Rightarrow> string option \<Rightarrow> simulation_resources option \<Rightarrow>
   string option \<Rightarrow> string option \<Rightarrow> string option \<Rightarrow> world \<Rightarrow> (error + string) \<times> world" where
  "execute_script e script_name aedt_file_name exec_option ansys_exec_address resources_requested
     name_bash_file job_log_name sub_folder w =
     (if exec_option = ''local'' then
        (case local_script_execution e script_name aedt_file_name ansys_exec_address sub_folder w of
           (Inl err, w') \<Rightarrow> (Inl err, w')
         | (Inr _, w') \<Rightarrow> (Inr ''0'', w'))
      else if exec_option = ''euler'' then
        run_euler_job e aedt_file_name resources_requested name_bash_file (Some script_name)
          None None job_log_name sub_folder w
      else (Inl (Exception (''execution option: '' @ exec_option @ '' not handled'')), w))"

section \<open>\<^verbatim>\<open>AAA/task_class.py\<close>\<close>

subsection \<open>\<^verbatim>\<open>Step\<close>\<close>

text \<open>
  The fields of a \<^verbatim>\<open>Step\<close> object; \<^verbatim>\<open>done\<close> and \<^verbatim>\<open>sub_folder\<close> carry a suffix here.
  \<open>func\<close> stands for the call \<^verbatim>\<open>func(**arg_list)\<close>: given the world it returns whether it
  raised, and the world it left; \<open>None\<close> is a step without a callable, whose call raises
  TypeError. The closure acts on the world, not on the task that runs it.
\<close>

record step =
  name :: string
  display_name :: string
  done_step :: bool
  in_progress :: bool
  step_type :: string
  move_to_log_file :: bool
  sub_folder_step :: "string option"
  script_name :: "string option"
  resources_requested :: "simulation_resources option"
  log_file_name :: "string option"
  bash_file_name :: "string option"
  setup_to_analyse :: "string option"
  design_name :: "string option"
  job_id :: "string option"
  func :: "(world \<Rightarrow> bool \<times> world) option"

text \<open>\<^verbatim>\<open>Step.__init__\<close>: the arguments in the order of the source.\<close>

definition Step_init ::
  "string \<Rightarrow> string \<Rightarrow> string \<Rightarrow> string option \<Rightarrow> simulation_resources option \<Rightarrow> bool \<Rightarrow>
   string option \<Rightarrow> string option \<Rightarrow> string option \<Rightarrow> string option \<Rightarrow> string option \<Rightarrow>
   (world \<Rightarrow> bool \<times> world) option \<Rightarrow> error + step" where
  "Step_init name' display_name' step_type' bash_file_name' resources_requested'
     move_to_log_file_dir script_name' sub_folder' log_file_name' design_name' setup_to_analyse'
     func' =
     (if step_type' \<notin> set [''Script'', ''Analysis'', ''Python'']
      then Inl (Exception (''Step type: '' @ step_type' @ '' not handled.''))
      else Inr \<lparr>name = name', display_name = display_name', done_step = False,
                in_progress = False, step_type = step_type',
                move_to_log_file = move_to_log_file_dir, sub_folder_step = sub_folder',
                script_name = script_name', resources_requested = resources_requested',
                log_file_name = log_file_name', bash_file_name = bash_file_name',
                setup_to_analyse = setup_to_analyse', design_name = design_name',
                job_id = None, func = func'\<rparr>)"

subsection \<open>\<^verbatim>\<open>Task\<close>\<close>

text \<open>The fields of a \<^verbatim>\<open>Task\<close> object; its \<^verbatim>\<open>status\<close> is the status of the world.\<close>

record task =
  project_name :: string
  exec_option :: string
  ansys_exec_address :: "string option"
  sub_folder :: "string option"
  steps :: "step list"
  step_iterator :: nat
  done_task :: bool
  display_warning :: bool

definition Task_init :: "string \<Rightarrow> string \<Rightarrow> string option \<Rightarrow> string option \<Rightarrow> bool \<Rightarrow> task" where
  "Task_init project_name' exec_option' sub_folder' ansys_exec_address' display_warnings =
     \<lparr>project_name = project_name', exec_option = exec_option',
      ansys_exec_address = ansys_exec_address', sub_folder = sub_folder', steps = [],
      step_iterator = 0, done_task = False, display_warning = display_warnings\<rparr>"

definition next_step :: "task \<Rightarrow> task" where
  "next_step t =
     (if step_iterator t + 1 = length (steps t) then t\<lparr>done_task := True\<rparr>
      else t\<lparr>step_iterator := step_iterator t + 1\<rparr>)"

definition report_state :: "task \<Rightarrow> string" where
  "report_state t =
     fold (\<lambda>s report_str. report_str @ ''|'' @ display_name s @ ''|''
                            @ (if done_step s then ''O'' else ''X''))
       (steps t) (project_name t) @ ''|''"

text \<open>An assignment to a field of \<^verbatim>\<open>current_step\<close>: the object sits in the list of the task.\<close>

definition upd_current :: "(step \<Rightarrow> step) \<Rightarrow> task \<Rightarrow> task" where
  "upd_current f t = t\<lparr>steps := (steps t)[step_iterator t := f (steps t ! step_iterator t)]\<rparr>"

text \<open>\<^verbatim>\<open>root_path\<close> of \<^verbatim>\<open>execute_step\<close>: an empty sub folder counts as none.\<close>

definition root_path :: "task \<Rightarrow> world \<Rightarrow> string" where
  "root_path t w =
     (case sub_folder t of
        None \<Rightarrow> cwd w
      | Some sf \<Rightarrow> if sf = [] then cwd w else path_join (path_join (cwd w) '''') sf)"

text \<open>\<^verbatim>\<open>os.path.join(root_path, "", file_name)\<close>.\<close>

definition in_root :: "task \<Rightarrow> world \<Rightarrow> string \<Rightarrow> string" where
  "in_root t w file_name = path_join (path_join (root_path t w) '''') file_name"

text \<open>The name of the log file of a step; \<^verbatim>\<open>None\<close> where a string is needed raises
  TypeError (in \<^verbatim>\<open>os.path.splitext\<close>, or in \<^verbatim>\<open>os.path.join\<close> right after).\<close>

definition step_log_file_name :: "step \<Rightarrow> error + string" where
  "step_log_file_name current_step =
     (if step_type current_step = ''Script'' then
        (case script_name current_step of
           None \<Rightarrow> Inl TypeError
         | Some sn \<Rightarrow> Inr (splitext_root sn @ ''.log''))
      else
        (case log_file_name current_step of
           None \<Rightarrow> Inl TypeError
         | Some n \<Rightarrow> Inr n))"

text \<open>The branch \<^verbatim>\<open>if not current_step.in_progress\<close>, in the three parts of the source.
  First, \<^verbatim>\<open># Remove any residuals from previous simulations\<close>.\<close>

definition remove_stale_log :: "string \<Rightarrow> world \<Rightarrow> (error + unit) \<times> world" where
  "remove_stale_log log_file_absolute_address w =
     (if path_exists w log_file_absolute_address then
        (case os_remove log_file_absolute_address w of
           (Inl err, w') \<Rightarrow> (Inl err, w')
         | (Inr _, w') \<Rightarrow> (Inr (), write_update ''Pre existing log file removed'' w'))
      else (Inr (), w))"

text \<open>Second, the call of \<^verbatim>\<open>execute_script\<close> or \<^verbatim>\<open>run_job\<close> that gives \<^verbatim>\<open>job_id\<close>. A Script
  step gets here with a script name only (without one the log name already raised).\<close>

definition dispatch_job ::
  "env \<Rightarrow> string \<Rightarrow> task \<Rightarrow> world \<Rightarrow> (error + string option) \<times> world" where
  "dispatch_job e log_name t w =
     (let current_step = steps t ! step_iterator t in
      if step_type current_step = ''Script'' then
        (case script_name current_step of
           None \<Rightarrow> (Inl TypeError, w)
         | Some sn \<Rightarrow>
             (case execute_script e sn (project_name t @ ''.aedt'') (exec_option t)
                     (ansys_exec_address t) (resources_requested current_step)
                     (bash_file_name current_step) None (sub_folder t) w of
                (Inl err, w') \<Rightarrow> (Inl err, w')
              | (Inr job_id', w') \<Rightarrow> (Inr (Some job_id'), w')))
      else
        run_job e (setup_to_analyse current_step) (project_name t @ ''.aedt'') (exec_option t)
          (design_name current_step) (ansys_exec_address t) (Some log_name)
          (resources_requested current_step) (bash_file_name current_step) (sub_folder t) w)"

text \<open>Third, the flags of the step once the call has returned.\<close>

definition execute_step_dispatch ::
  "env \<Rightarrow> string \<Rightarrow> task \<Rightarrow> world \<Rightarrow> (error + unit) \<times> task \<times> world" where
  "execute_step_dispatch e log_name t w =
     (case remove_stale_log (in_root t w log_name) w of
        (Inl err, w1) \<Rightarrow> (Inl err, t, w1)
      | (Inr _, w1) \<Rightarrow>
          (case dispatch_job e log_name t
                  (write_update (''Executing '' @ splitext_root log_name) w1) of
             (Inl err, w3) \<Rightarrow> (Inl err, t, w3)
           | (Inr job_id', w3) \<Rightarrow>
               (let t1 = upd_current (\<lambda>s. s\<lparr>in_progress := True\<rparr>) t in
                if exec_option t = ''euler'' then
                  (Inr (),
                   upd_current (\<lambda>s. s\<lparr>job_id := job_id'\<rparr>) t1,
                   write_update (''Job ID: '' @ (case job_id' of None \<Rightarrow> ''None'' | Some j \<Rightarrow> j)
                                   @ '' associated to the step: ''
                                   @ name (steps t ! step_iterator t)) w3)
                else (Inr (), t1, w3))))"

text \<open>The branch \<^verbatim>\<open>else:  # step in progress\<close>: one probe of the files. Its three
  outcomes first: the log is complete on the local backend, \<^verbatim>\<open>else:  # EULER\<close>, and
  \<^verbatim>\<open>else:  # there is a lock error syndrome in the log file\<close>.\<close>

definition poll_local :: "string \<Rightarrow> task \<Rightarrow> world \<Rightarrow> (error + unit) \<times> task \<times> world" where
  "poll_local log_name t w =
     (let w1 = write_update ''No error lock syndrome detected'' w in
      case detect_errors_from_log_file log_name (sub_folder t) (display_warning t) w1 of
        (Inl err, w2) \<Rightarrow> (Inl err, t, w2)
      | (Inr _, w2) \<Rightarrow>
          (let w3 = write_update ''Preventive cleaning'' w2 in
           case clean_project_files (project_name t) False False (sub_folder t) w3 of
             (Inl err, w4) \<Rightarrow> (Inl err, t, w4)
           | (Inr _, w4) \<Rightarrow> (Inr (), upd_current (\<lambda>s. s\<lparr>done_step := True\<rparr>) t, w4)))"

definition poll_euler :: "env \<Rightarrow> string \<Rightarrow> task \<Rightarrow> world \<Rightarrow> (error + unit) \<times> task \<times> world" where
  "poll_euler e log_name t w =
     (case job_id (steps t ! step_iterator t) of
        None \<Rightarrow> (Inl TypeError, t, w)
      | Some j \<Rightarrow>
          (let lsf_report_default_name = ''lsf.o'' @ j;
               lsf_report_absolute_address = in_root t w lsf_report_default_name
           in if \<not> path_exists w lsf_report_absolute_address then (Inr (), t, w)
              else
                (let w1 = write_update ''No error lock syndrome detected'' w in
                 case detect_errors_from_log_file log_name (sub_folder t) (display_warning t) w1 of
                   (Inl err, w2) \<Rightarrow> (Inl err, t, w2)
                 | (Inr _, w2) \<Rightarrow>
                     (case os_rename lsf_report_absolute_address
                             (in_root t w (''lfs_'' @ splitext_root log_name @ ''.txt'')) w2 of
                        (Inl err, w3) \<Rightarrow> (Inl err, t, w3)
                      | (Inr _, w3) \<Rightarrow>
                          (let w4 = write_update ('' lsf.o file renamed to lsf_''
                                                    @ splitext_root log_name) w3;
                               w5 = write_update ''Preventive cleaning'' w4
                           in case clean_project_files (project_name t) False False
                                     (sub_folder t) w5 of
                                (Inl err, w6) \<Rightarrow> (Inl err, t, w6)
                              | (Inr _, w6) \<Rightarrow>
                                  (let w7 = write_update ''script execution completed'' w6;
                                       w8 = write_time e w7
                                   in (Inr (), upd_current (\<lambda>s. s\<lparr>done_step := True\<rparr>) t,
                                       w8)))))))"

definition poll_lock_error :: "string \<Rightarrow> task \<Rightarrow> world \<Rightarrow> (error + unit) \<times> task \<times> world" where
  "poll_lock_error log_name t w =
     (let w1 = write_update ''Error lock syndrome detected'' w;
          w2 = write_update ''Check and remove potential completion and lock files'' w1
      in case clean_project_files (project_name t) False False (sub_folder t) w2 of
           (Inl err, w3) \<Rightarrow> (Inl err, t, w3)
         | (Inr _, w3) \<Rightarrow>
             (case os_remove (in_root t w log_name) w3 of
                (Inl err, w4) \<Rightarrow> (Inl err, t, w4)
              | (Inr _, w4) \<Rightarrow>
                  (Inr (), upd_current (\<lambda>s. s\<lparr>in_progress := False\<rparr>) t, w4)))"

definition execute_step_poll ::
  "env \<Rightarrow> string \<Rightarrow> task \<Rightarrow> world \<Rightarrow> (error + unit) \<times> task \<times> world" where
  "execute_step_poll e log_name t w =
     (if \<not> path_exists w (in_root t w log_name) then (Inr (), t, w)
      else
        (case find_lock_error_syndrome log_name (sub_folder t) w of
           Inl err \<Rightarrow> (Inl err, t, w)
         | Inr lock_error \<Rightarrow>
             if \<not> lock_error then
               (if exec_option t = ''local'' then poll_local log_name t w
                else poll_euler e log_name t w)
             else poll_lock_error log_name t w))"

text \<open>
  \<^verbatim>\<open>Task.execute_step\<close>. \<^verbatim>\<open>self.steps[self.step_iterator]\<close> raises IndexError when the
  cursor is not an index of the list. The exception of a Python step is caught by the
  bare \<^verbatim>\<open>except\<close>.
\<close>

definition execute_step :: "env \<Rightarrow> task \<Rightarrow> world \<Rightarrow> (error + unit) \<times> task \<times> world" where
  "execute_step e t w =
     (if \<not> step_iterator t < length (steps t) then (Inl IndexError, t, w)
      else
        (let current_step = steps t ! step_iterator t in
         if done_step current_step then (Inr (), next_step t, w)
         else if step_type current_step = ''Python'' then
           (let w1 = write_update (''Executing python step: '' @ name current_step) w;
                w2 = (case func current_step of
                        None \<Rightarrow> write_update ''Error for optimization plotting'' w1
                      | Some call \<Rightarrow>
                          (case call w1 of
                             (raised, w') \<Rightarrow>
                               if raised then write_update ''Error for optimization plotting'' w'
                               else w'))
            in (Inr (), next_step t, w2))
         else
           (case step_log_file_name current_step of
              Inl err \<Rightarrow> (Inl err, t, w)
            | Inr log_name \<Rightarrow>
                if \<not> in_progress current_step then execute_step_dispatch e log_name t w
                else execute_step_poll e log_name t w)))"

text \<open>
  Any number of \<^verbatim>\<open>execute_step\<close> calls on one task, whatever the world is at each call
  (the child processes and the scheduler change the files between two polls) and
  whether a call raises or not: \<open>polls t t'\<close> holds when such calls lead from \<open>t\<close> to \<open>t'\<close>.
\<close>

inductive polls :: "task \<Rightarrow> task \<Rightarrow> bool" where
  polls_refl: "polls t t"
| polls_step: "polls t t' \<Longrightarrow> execute_step e t' w = (res, t'', w') \<Longrightarrow> polls t t''"

text \<open>The state in which \<^verbatim>\<open>next_step\<close> sets \<^verbatim>\<open>done\<close>: the cursor is on the last step and that
  step is done.\<close>

definition last_step_done :: "task \<Rightarrow> bool" where
  "last_step_done t =
     (step_iterator t + 1 = length (steps t) \<and> done_step (steps t ! step_iterator t))"

section \<open>Example worlds, steps and tasks\<close>

text \<open>A scheduler that answers every submission with job 4711 and child processes that
  leave the files alone; an empty working directory \<^verbatim>\<open>/work\<close>.\<close>

definition env0 :: env where
  "env0 = \<lparr>ext_run = (\<lambda>cmd dir w. fs w),
           popen_stdout = (\<lambda>cmd dir w. ''Job <4711> is submitted to queue <normal.4h>.'' @ [CHR 0x0A]),
           elapsed = ''00:00:01''\<rparr>"

definition world0 :: world where
  "world0 = \<lparr>cwd = ''/work'', fs = (\<lambda>p. None), status = [], events = []\<rparr>"

definition script_step :: step where
  "script_step = \<lparr>name = ''setup'', display_name = ''Setup'', done_step = False,
     in_progress = False, step_type = ''Script'', move_to_log_file = True,
     sub_folder_step = None, script_name = Some ''setup.vbs'', resources_requested = None,
     log_file_name = None, bash_file_name = Some ''setup.sh'', setup_to_analyse = None,
     design_name = None, job_id = None, func = None\<rparr>"

definition python_step :: "(world \<Rightarrow> bool \<times> world) \<Rightarrow> step" where
  "python_step call = \<lparr>name = ''plot'', display_name = ''Plot'', done_step = False,
     in_progress = False, step_type = ''Python'', move_to_log_file = False,
     sub_folder_step = None, script_name = None, resources_requested = None,
     log_file_name = None, bash_file_name = None, setup_to_analyse = None,
     design_name = None, job_id = None, func = Some call\<rparr>"

definition task_of :: "string \<Rightarrow> step list \<Rightarrow> task" where
  "task_of backend step_list = \<lparr>project_name = ''proj'', exec_option = backend,
     ansys_exec_address = Some ''ansysedt.exe'', sub_folder = None, steps = step_list,
     step_iterator = 0, done_task = False, display_warning = False\<rparr>"

text \<open>A working directory whose log shows the lock error, next to a stale lock file; and
  one whose log is complete while the scheduler has not delivered its report.\<close>

definition world_lock :: world where
  "world_lock = world0\<lparr>fs :=
     [''/work/setup.log'' \<mapsto>
        File (''proj.aedt may be opened in another instance of the application.'' @ [CHR 0x0A]),
      ''/work/proj.aedt.lock'' \<mapsto> File []]\<rparr>"

definition world_log_only :: world where
  "world_log_only = world0\<lparr>fs := [''/work/setup.log'' \<mapsto> File (''[info] solved'' @ [CHR 0x0A])]\<rparr>"

text \<open>A log of two lines: the first has a marker followed by a space and one that ends
  the line, the second has its only marker at the end of the line.\<close>

definition world_two_markers :: world where
  "world_two_markers = world0\<lparr>fs :=
     [''/work/setup.log'' \<mapsto>
        File (''[error] retry [error]'' @ [CHR 0x0A] @ ''solver [error]'' @ [CHR 0x0A])]\<rparr>"

text \<open>An Analysis step whose log file was given the name of the project's lock file.\<close>

definition analysis_step :: step where
  "analysis_step = \<lparr>name = ''sweep'', display_name = ''Sweep'', done_step = False,
     in_progress = True, step_type = ''Analysis'', move_to_log_file = False,
     sub_folder_step = None, script_name = None, resources_requested = None,
     log_file_name = Some ''proj.aedt.lock'', bash_file_name = Some ''sweep.sh'',
     setup_to_analyse = Some ''Setup1'', design_name = Some ''HFSSDesign1'',
     job_id = None, func = None\<rparr>"

definition world_log_is_lock :: world where
  "world_log_is_lock = world0\<lparr>fs :=
     [''/work/proj.aedt.lock'' \<mapsto>
        File (''proj.aedt may be opened in another instance of the application.'' @ [CHR 0x0A])]\<rparr>"

section \<open>The word splitter and what is built on it\<close>

lemma word_loop_no_space:
  "CHR '' '' \<notin> set s \<Longrightarrow> word_loop word_list temp_word s = word_list"
  by (induction s arbitrary: temp_word) auto

lemma word_loop_last_token:
  "CHR '' '' \<notin> set tok \<Longrightarrow>
   word_loop word_list temp_word (pre @ tok) = word_loop word_list temp_word pre"
  by (induction pre arbitrary: word_list temp_word) (auto simp: word_loop_no_space)

lemma string_to_word_list_last_token:
  "CHR '' '' \<notin> set tok \<Longrightarrow> string_to_word_list (pre @ tok) = string_to_word_list pre"
  by (simp add: string_to_word_list_def word_loop_last_token)

text \<open>
  Claim C8. The parser looks for the word \<^verbatim>\<open>Job\<close> and takes the digits of the word after
  it; the claim says that whenever no identifier is found it returns the diagnostic
  string instead of failing. The code does so when no word is \<^verbatim>\<open>Job\<close>
  (\<open>find_job_id_no_marker\<close> below), but on an output whose last word is \<^verbatim>\<open>Job\<close> the
  access \<^verbatim>\<open>word_list[index + 1]\<close> raises IndexError: no diagnostic is returned.
\<close>

theorem find_job_id_marker_last_word:
  "find_job_id_from_exec_output ''Job '' = Inl IndexError"
  by (simp add: find_job_id_from_exec_output_def string_to_word_list_def)

lemma job_loop_no_marker: "''Job'' \<notin> set ws \<Longrightarrow> job_loop val ws = Inr val"
  by (induction ws arbitrary: val) auto

lemma find_job_id_no_marker:
  "''Job'' \<notin> set (string_to_word_list s) \<Longrightarrow>
   find_job_id_from_exec_output s = Inr (''no job id in: '' @ s)"
  by (simp add: find_job_id_from_exec_output_def job_loop_no_marker)

lemma find_job_id_bsub:
  "find_job_id_from_exec_output
     (''Job <4711> is submitted to queue <normal.4h>.'' @ [CHR 0x0A]) = Inr ''4711''"
  by (simp add: find_job_id_from_exec_output_def string_to_word_list_def isdigit_def)

lemma find_job_id_no_digits: "find_job_id_from_exec_output ''Job pending '' = Inr []"
  by (simp add: find_job_id_from_exec_output_def string_to_word_list_def isdigit_def)

subsection \<open>The scan of a log\<close>

lemma write_update_fields [simp]:
  "fs (write_update x w) = fs w"
  "cwd (write_update x w) = cwd w"
  "events (write_update x w) = events w"
  by (simp_all add: write_update_def)

lemma fold_write_update_fs [simp]: "fs (fold write_update xs w) = fs w"
  by (induction xs arbitrary: w) auto

lemma fold_report_fs [simp]:
  "fs (fold (\<lambda>i. fold write_update (g i)) xs w) = fs w"
  by (induction xs arbitrary: w) auto

lemma fold_write_update_status: "status (fold write_update xs w) = status w @ xs"
  by (induction xs arbitrary: w) (auto simp: write_update_def)

lemma fold_report_status:
  "status (fold (\<lambda>i. fold write_update (g i)) xs w) = status w @ concat (map g xs)"
  by (induction xs arbitrary: w) (auto simp: fold_write_update_status)

text \<open>What the scan sends to the status: its heading, then round after round what
  \<open>report_at\<close> gives.\<close>

lemma detect_errors_status:
  assumes "fs w (path_in w sf n) = Some (File text)"
  shows "status (snd (detect_errors_from_log_file n sf dw w))
           = status w @ [''Checking for errors and warnings in: '' @ n]
               @ concat (map (report_at dw (readlines text)) [0..<length (readlines text)])"
  using assms
  by (simp add: detect_errors_from_log_file_def read_file_def Let_def fold_report_status
      write_update_def)

lemma detect_errors_silent:
  assumes "fs w (path_in w sf n) = Some (File text)"
    and "\<forall>i<length (readlines text). \<not> report_line dw (readlines text ! i)"
  shows "status (snd (detect_errors_from_log_file n sf dw w))
           = status w @ [''Checking for errors and warnings in: '' @ n]"
proof -
  have "map (report_at dw (readlines text)) [0..<length (readlines text)]
          = map (\<lambda>i. []) [0..<length (readlines text)]"
    using assms(2) by (intro map_cong) (simp_all add: report_at_def)
  then show ?thesis
    using detect_errors_status[OF assms(1), of dw] by simp
qed

lemma concat_map_upt_split:
  assumes "i < n"
  shows "concat (map f [0..<n]) = concat (map f [0..<i]) @ f i @ concat (map f [Suc i..<n])"
proof -
  have "[0..<i + (n - i)] = [0..<i] @ [i..<i + (n - i)]"
    by (rule upt_add_eq_append) simp
  moreover have "[i..<n] = i # [Suc i..<n]"
    using assms by (rule upt_conv_Cons)
  ultimately have "[0..<n] = [0..<i] @ [i] @ [Suc i..<n]"
    using assms by simp
  then show ?thesis by simp
qed

text \<open>
  Claim C10, as amended. Line \<open>i\<close> of the log is \<open>pre @ marker @ rest\<close>, where \<open>marker\<close> is
  \<^verbatim>\<open>[error]\<close> or \<^verbatim>\<open>[warning]\<close> and no space follows it up to the end of the line (\<open>rest\<close> is
  the newline, or nothing). The splitter drops the last token, so the words of the line
  are those of \<open>pre\<close> and this marker is not matched. The scan writes to the status its
  heading, what the rounds of the earlier lines report, what the round of line \<open>i\<close>
  reports, and what the rounds of the later lines report; the round of line \<open>i\<close> reports
  the line, with up to three lines after it, exactly when a word of \<open>pre\<close> is a marker
  that counts, and nothing otherwise. The line can still reach the status as one of the
  lines that follow an earlier reported line.
\<close>

theorem last_token_marker_not_counted:
  assumes "fs w (path_in w sf n) = Some (File text)"
    and "i < length (readlines text)"
    and "readlines text ! i = pre @ marker @ rest"
    and "marker = ''[error]'' \<or> marker = ''[warning]''"
    and "CHR '' '' \<notin> set rest"
  shows "string_to_word_list (readlines text ! i) = string_to_word_list pre
       \<and> report_line display_warnings (readlines text ! i) = report_line display_warnings pre
       \<and> report_at display_warnings (readlines text) i
           = (if report_line display_warnings pre then take 4 (drop i (readlines text)) else [])
       \<and> status (snd (detect_errors_from_log_file n sf display_warnings w))
           = status w @ [''Checking for errors and warnings in: '' @ n]
               @ concat (map (report_at display_warnings (readlines text)) [0..<i])
               @ (if report_line display_warnings pre then take 4 (drop i (readlines text))
                  else [])
               @ concat (map (report_at display_warnings (readlines text))
                           [Suc i..<length (readlines text)])"
proof -
  have "CHR '' '' \<notin> set (marker @ rest)"
    using assms(4,5) by auto
  then have words: "string_to_word_list (readlines text ! i) = string_to_word_list pre"
    using assms(3) string_to_word_list_last_token[of "marker @ rest" pre] by simp
  then have same: "report_line display_warnings (readlines text ! i)
                     = report_line display_warnings pre"
    by (simp add: report_line_def)
  have r: "report_at display_warnings (readlines text) i
             = (if report_line display_warnings pre then take 4 (drop i (readlines text))
                else [])"
    using same by (simp add: report_at_def)
  show ?thesis
    using words same detect_errors_status[OF assms(1), of display_warnings]
      concat_map_upt_split[OF assms(2), of "report_at display_warnings (readlines text)"] r
    by simp
qed

theorem last_token_marker_not_counted_witness:
  "fs (world0\<lparr>fs := [''/work/setup.log'' \<mapsto> File (''solver [error]'' @ [CHR 0x0A])]\<rparr>)
      ''/work/setup.log'' = Some (File (''solver [error]'' @ [CHR 0x0A]))
   \<and> readlines (''solver [error]'' @ [CHR 0x0A]) = [''solver '' @ ''[error]'' @ [CHR 0x0A]]
   \<and> CHR '' '' \<notin> set [CHR 0x0A]
   \<and> \<not> report_line True ''solver ''
   \<and> status (snd (detect_errors_from_log_file ''setup.log'' None True
        (world0\<lparr>fs := [''/work/setup.log'' \<mapsto> File (''solver [error]'' @ [CHR 0x0A])]\<rparr>)))
       = [''Checking for errors and warnings in: setup.log'']"
proof -
  let ?w = "world0\<lparr>fs := [''/work/setup.log'' \<mapsto> File (''solver [error]'' @ [CHR 0x0A])]\<rparr>"
  have p: "path_in ?w None ''setup.log'' = ''/work/setup.log''"
    by (simp add: world0_def path_in_def path_join_def)
  have h1: "fs ?w (path_in ?w None ''setup.log'') = Some (File (''solver [error]'' @ [CHR 0x0A]))"
    unfolding p by simp
  have r: "readlines (''solver [error]'' @ [CHR 0x0A]) = [''solver '' @ ''[error]'' @ [CHR 0x0A]]"
    by (simp add: readlines_def)
  have h2: "0 < length (readlines (''solver [error]'' @ [CHR 0x0A]))"
    unfolding r by simp
  have h3: "readlines (''solver [error]'' @ [CHR 0x0A]) ! 0 = ''solver '' @ ''[error]'' @ [CHR 0x0A]"
    unfolding r by simp
  have h4: "''[error]'' = ''[error]'' \<or> ''[error]'' = ''[warning]''" by simp
  have h5: "CHR '' '' \<notin> set [CHR 0x0A]" by simp
  have n: "\<not> report_line True ''solver ''"
    by (simp add: report_line_def string_to_word_list_def)
  have s: "status ?w = []" by (simp add: world0_def)
  note t = last_token_marker_not_counted[OF h1 h2 h3 h4 h5, of True]
  from t have "status (snd (detect_errors_from_log_file ''setup.log'' None True ?w))
       = status ?w @ [''Checking for errors and warnings in: '' @ ''setup.log'']
           @ concat (map (report_at True (readlines (''solver [error]'' @ [CHR 0x0A]))) [0..<0])
           @ (if report_line True ''solver ''
              then take 4 (drop 0 (readlines (''solver [error]'' @ [CHR 0x0A]))) else [])
           @ concat (map (report_at True (readlines (''solver [error]'' @ [CHR 0x0A])))
               [Suc 0..<length (readlines (''solver [error]'' @ [CHR 0x0A]))])"
    by blast
  then have "status (snd (detect_errors_from_log_file ''setup.log'' None True ?w))
       = [''Checking for errors and warnings in: setup.log'']"
    using n s unfolding r by simp
  then show ?thesis using h1 r h5 n unfolding p by simp
qed

text \<open>
  The claim as stated fails on a log of two lines. The marker that ends the first line
  is followed by no space, and the line is reported, for the marker at its start. The
  only marker of the second line ends it, and the line is written to the status as the
  line after the first.
\<close>

theorem last_token_marker_line_in_status:
  "''[error] retry [error]'' @ [CHR 0x0A] = ''[error] retry '' @ ''[error]'' @ [CHR 0x0A]
   \<and> ''solver [error]'' @ [CHR 0x0A] = ''solver '' @ ''[error]'' @ [CHR 0x0A]
   \<and> CHR '' '' \<notin> set [CHR 0x0A]
   \<and> \<not> report_line False ''solver ''
   \<and> status (snd (detect_errors_from_log_file ''setup.log'' None False world_two_markers))
       = [''Checking for errors and warnings in: setup.log'',
          ''[error] retry [error]'' @ [CHR 0x0A],
          ''solver [error]'' @ [CHR 0x0A]]"
proof -
  have f: "fs world_two_markers (path_in world_two_markers None ''setup.log'')
             = Some (File (''[error] retry [error]'' @ [CHR 0x0A] @ ''solver [error]'' @ [CHR 0x0A]))"
    by (simp add: world_two_markers_def world0_def path_in_def path_join_def)
  have s: "status world_two_markers = []"
    by (simp add: world_two_markers_def world0_def)
  have n: "\<not> report_line False ''solver ''"
    by (simp add: report_line_def string_to_word_list_def)
  show ?thesis
    using detect_errors_status[OF f, of False] n
    by (simp add: readlines_def report_at_def report_line_def string_to_word_list_def
        upt_rec s)
qed

lemma marker_before_space_reported:
  "report_at False [''solver [error] '' @ [CHR 0x0A], ''next''] 0
     = [''solver [error] '' @ [CHR 0x0A], ''next'']"
  by (simp add: report_at_def report_line_def string_to_word_list_def)

lemma detect_errors_last_token_marker:
  "status (snd (detect_errors_from_log_file ''setup.log'' None True
             (world0\<lparr>fs := [''/work/setup.log'' \<mapsto> File (''solver [error]'' @ [CHR 0x0A])]\<rparr>)))
     = [''Checking for errors and warnings in: setup.log'']"
proof -
  let ?w = "world0\<lparr>fs := [''/work/setup.log'' \<mapsto> File (''solver [error]'' @ [CHR 0x0A])]\<rparr>"
  have f: "fs ?w (path_in ?w None ''setup.log'') = Some (File (''solver [error]'' @ [CHR 0x0A]))"
    by (simp add: world0_def path_in_def path_join_def)
  have r: "readlines (''solver [error]'' @ [CHR 0x0A]) = [''solver [error]'' @ [CHR 0x0A]]"
    by (simp add: readlines_def)
  have q: "\<forall>i<length (readlines (''solver [error]'' @ [CHR 0x0A])).
             \<not> report_line True (readlines (''solver [error]'' @ [CHR 0x0A]) ! i)"
    unfolding r by (simp add: report_line_def string_to_word_list_def)
  show ?thesis
    using detect_errors_silent[OF f q] by (simp add: world0_def)
qed

section \<open>The stale-artifact cleanup\<close>

lemma work_dir_write_update [simp]: "work_dir (write_update x w) sf = work_dir w sf"
  by (simp add: work_dir_def os_chdir_def split: option.splits)

lemma path_exists_write_update [simp]: "path_exists (write_update x w) p = path_exists w p"
  by (simp add: path_exists_def)

lemma work_dir_empty: "work_dir w (Some []) = Inl FileNotFoundError"
  by (simp add: work_dir_def os_chdir_def)

lemma work_dir_Inl: "work_dir w sf = Inl err \<Longrightarrow> sf = Some [] \<and> err = FileNotFoundError"
  by (auto simp: work_dir_def os_chdir_def split: option.splits if_splits)


lemma clean_one_cwd [simp]: "cwd (clean_one dir f w) = cwd w"
  by (simp add: clean_one_def Let_def write_update_def os_remove_def rmtree_def isfile_def
      split: option.splits node.splits)

lemma clean_one_removes: "fs (clean_one dir f w) (path_join dir f) = None"
  by (auto simp: clean_one_def Let_def write_update_def os_remove_def rmtree_def isfile_def
      isdir_def covers_def split: option.splits node.splits)

lemma clean_one_keeps_absent: "fs w q = None \<Longrightarrow> fs (clean_one dir f w) q = None"
  by (auto simp: clean_one_def Let_def write_update_def os_remove_def rmtree_def isfile_def
      isdir_def split: option.splits node.splits)

lemma clean_one_preserves:
  "\<not> covers (path_join dir f) q \<Longrightarrow> fs (clean_one dir f w) q = fs w q"
  by (auto simp: clean_one_def Let_def write_update_def os_remove_def rmtree_def isfile_def
      isdir_def covers_def split: option.splits node.splits)

lemma fold_clean_one_cwd [simp]: "cwd (fold (clean_one dir) names w) = cwd w"
  by (induction names arbitrary: w) auto

lemma fold_clean_one_keeps_absent:
  "fs w q = None \<Longrightarrow> fs (fold (clean_one dir) names w) q = None"
  by (induction names arbitrary: w) (auto simp: clean_one_keeps_absent)

lemma fold_clean_one_removes:
  "f \<in> set names \<Longrightarrow> fs (fold (clean_one dir) names w) (path_join dir f) = None"
  by (induction names arbitrary: w)
     (auto simp: clean_one_removes fold_clean_one_keeps_absent)

lemma fold_clean_one_preserves:
  "\<forall>f\<in>set names. \<not> covers (path_join dir f) q \<Longrightarrow>
   fs (fold (clean_one dir) names w) q = fs w q"
  by (induction names arbitrary: w) (auto simp: clean_one_preserves)


lemma clean_project_files_raises:
  "clean_project_files pn a r (Some []) w = (Inl FileNotFoundError, w)"
  by (simp add: clean_project_files_def work_dir_empty)

lemma clean_project_files_returns:
  "work_dir w sf = Inr dir \<Longrightarrow>
   clean_project_files pn a r sf w = (Inr (), fold (clean_one dir) (file_to_check pn a r) w)"
  by (simp add: clean_project_files_def)

lemma clean_project_files_cwd [simp]: "cwd (snd (clean_project_files pn a r sf w)) = cwd w"
  by (simp add: clean_project_files_def split: sum.splits)

lemma work_dir_clean_project_files [simp]:
  "work_dir (snd (clean_project_files pn a r sf w)) sf' = work_dir w sf'"
  by (simp add: work_dir_def os_chdir_def split: option.splits)

lemma clean_project_files_preserves:
  "work_dir w sf = Inr dir \<Longrightarrow>
   \<forall>f\<in>set (file_to_check pn a r). \<not> covers (path_join dir f) q \<Longrightarrow>
   fs (snd (clean_project_files pn a r sf w)) q = fs w q"
  by (simp add: clean_project_files_returns fold_clean_one_preserves)

lemma clean_project_files_removes:
  "work_dir w sf = Inr dir \<Longrightarrow> f \<in> set (file_to_check pn a r) \<Longrightarrow>
   fs (snd (clean_project_files pn a r sf w)) (path_join dir f) = None"
  by (simp add: clean_project_files_returns fold_clean_one_removes)




text \<open>In the example the stale lock file is removed and the log, which is not listed, is
  kept; with the empty sub folder the call raises and the lock file stays.\<close>

lemma lock_example_work_dir: "work_dir world_lock None = Inr ''/work''"
  by (simp add: work_dir_def world_lock_def world0_def)

lemma lock_example_apart:
  "\<forall>f\<in>set (file_to_check ''proj'' False False).
     \<not> covers (path_join ''/work'' f) ''/work/setup.log''"
  by (simp add: file_to_check_def covers_def path_join_def)

lemma lock_example_log:
  "fs world_lock ''/work/setup.log'' =
     Some (File (''proj.aedt may be opened in another instance of the application.''
                   @ [CHR 0x0A]))"
  by (simp add: world_lock_def world0_def)


lemma clean_project_files_empty_sub_folder:
  "clean_project_files ''proj'' False False (Some []) world_lock
     = (Inl FileNotFoundError, world_lock)"
  by (rule clean_project_files_raises)

section \<open>Dispatch\<close>

lemma execute_script_local:
  "sf \<noteq> Some [] \<Longrightarrow>
   execute_script e sn aedt ''local'' (Some address) r nb jl sf w =
     (Inr ''0'',
      w\<lparr>fs := ext_run e (''cmd /c '' @ address @ '' -features=beta -ng -runscriptandexit ''
                           @ sn @ '' '' @ aedt) sf w,
        events := events w @ [Spawned (''cmd /c '' @ address
                                @ '' -features=beta -ng -runscriptandexit '' @ sn @ '' '' @ aedt)]\<rparr>)"
  by (simp add: execute_script_def local_script_execution_def subprocess_call_def)





lemma execute_script_no_address:
  "execute_script e sn aedt ''local'' None r nb jl sf w = (Inl TypeError, w)"
  by (simp add: execute_script_def local_script_execution_def)

text \<open>The fatal configuration errors that are raised, each before anything is written or
  launched: the world is returned as it was.\<close>

lemma run_euler_job_conflict:
  "script \<noteq> None \<Longrightarrow> setup \<noteq> None \<or> design \<noteq> None \<Longrightarrow>
   run_euler_job e aedt r nb script design setup jl sf w =
     (Inl (Exception ''Cannot run a script and analyse a setup simultaneously''), w)"
  by (simp add: run_euler_job_def)

lemma execute_script_unknown_backend:
  "x \<noteq> ''local'' \<Longrightarrow> x \<noteq> ''euler'' \<Longrightarrow>
   execute_script e sn aedt x addr r nb jl sf w =
     (Inl (Exception (''execution option: '' @ x @ '' not handled'')), w)"
  by (simp add: execute_script_def)

lemma Step_init_unknown_kind:
  "st \<notin> {''Script'', ''Analysis'', ''Python''} \<Longrightarrow>
   Step_init n dn st bf r mv sn sf lf dsn sta fn =
     Inl (Exception (''Step type: '' @ st @ '' not handled.''))"
  by (simp add: Step_init_def)

text \<open>
  Claim C4. The claim says that an unknown execution backend raises at dispatch, as a
  conflicting payload and an unknown step kind do (the three lemmas above).
  \<^verbatim>\<open>run_job\<close> has no such branch: for the backend \<^verbatim>\<open>'cloud'\<close> it returns \<^verbatim>\<open>None\<close> and raises
  nothing, where \<^verbatim>\<open>execute_script\<close> raises.
\<close>

theorem run_job_unknown_backend_returns:
  "run_job e (Some ''Setup1'') ''proj.aedt'' ''cloud'' (Some ''HFSSDesign1'')
     (Some ''ansysedt.exe'') (Some ''sweep.log'') r (Some ''sweep.sh'') None w = (Inr None, w)"
  by (simp add: run_job_def)

section \<open>What one call of \<^verbatim>\<open>execute_step\<close> does to the task\<close>

lemma upd_current_fields [simp]:
  "step_iterator (upd_current f t) = step_iterator t"
  "done_task (upd_current f t) = done_task t"
  "length (steps (upd_current f t)) = length (steps t)"
  "exec_option (upd_current f t) = exec_option t"
  "sub_folder (upd_current f t) = sub_folder t"
  "project_name (upd_current f t) = project_name t"
  by (simp_all add: upd_current_def)

lemma upd_current_nth:
  "steps (upd_current f t) ! i =
     (if i = step_iterator t \<and> i < length (steps t) then f (steps t ! i) else steps t ! i)"
  by (cases "step_iterator t < length (steps t)")
     (auto simp: upd_current_def nth_list_update list_update_beyond)

lemma next_step_fields [simp]:
  "steps (next_step t) = steps t"
  "step_iterator t \<le> step_iterator (next_step t)"
  by (simp_all add: next_step_def)

lemma poll_local_task:
  "fst (snd (poll_local n t w)) = t
   \<or> fst (snd (poll_local n t w)) = upd_current (\<lambda>s. s\<lparr>done_step := True\<rparr>) t"
  by (simp add: poll_local_def Let_def split: sum.splits prod.splits)

lemma poll_euler_task:
  "fst (snd (poll_euler e n t w)) = t
   \<or> fst (snd (poll_euler e n t w)) = upd_current (\<lambda>s. s\<lparr>done_step := True\<rparr>) t"
  by (simp add: poll_euler_def Let_def split: sum.splits prod.splits option.splits)

lemma poll_lock_error_task:
  "fst (snd (poll_lock_error n t w)) = t
   \<or> fst (snd (poll_lock_error n t w)) = upd_current (\<lambda>s. s\<lparr>in_progress := False\<rparr>) t"
  by (simp add: poll_lock_error_def Let_def split: sum.splits prod.splits)

lemma execute_step_poll_task:
  "fst (snd (execute_step_poll e n t w)) = t
   \<or> fst (snd (execute_step_poll e n t w)) = upd_current (\<lambda>s. s\<lparr>done_step := True\<rparr>) t
   \<or> fst (snd (execute_step_poll e n t w)) = upd_current (\<lambda>s. s\<lparr>in_progress := False\<rparr>) t"
  using poll_local_task[of n t w] poll_euler_task[of e n t w] poll_lock_error_task[of n t w]
  by (auto simp: execute_step_poll_def split: sum.splits)

lemma execute_step_dispatch_task:
  "fst (snd (execute_step_dispatch e n t w)) = t
   \<or> fst (snd (execute_step_dispatch e n t w)) = upd_current (\<lambda>s. s\<lparr>in_progress := True\<rparr>) t
   \<or> (\<exists>j. fst (snd (execute_step_dispatch e n t w)) =
         upd_current (\<lambda>s. s\<lparr>in_progress := True, job_id := j\<rparr>) t)"
proof -
  have both: "\<And>j. upd_current (\<lambda>s. s\<lparr>job_id := j\<rparr>) (upd_current (\<lambda>s. s\<lparr>in_progress := True\<rparr>) t)
      = upd_current (\<lambda>s. s\<lparr>in_progress := True, job_id := j\<rparr>) t"
    by (cases "step_iterator t < length (steps t)")
       (simp_all add: upd_current_def list_update_beyond)
  show ?thesis
    unfolding execute_step_dispatch_def Let_def
    by (auto simp: both split: sum.splits prod.splits)
qed

text \<open>One call leaves the task as it is, moves on from a done or a Python step, or sets
  flags of the current step.\<close>

lemma execute_step_task:
  assumes "execute_step e t w = (res, t', w')"
  shows "t' = t
     \<or> (t' = next_step t \<and> step_iterator t < length (steps t) \<and>
          (done_step (steps t ! step_iterator t)
           \<or> step_type (steps t ! step_iterator t) = ''Python''))
     \<or> (step_iterator t < length (steps t)
          \<and> step_type (steps t ! step_iterator t) \<noteq> ''Python''
          \<and> \<not> done_step (steps t ! step_iterator t)
          \<and> (t' = upd_current (\<lambda>s. s\<lparr>done_step := True\<rparr>) t
              \<or> (\<exists>b. t' = upd_current (\<lambda>s. s\<lparr>in_progress := b\<rparr>) t)
              \<or> (\<exists>j. t' = upd_current (\<lambda>s. s\<lparr>in_progress := True, job_id := j\<rparr>) t)))"
proof (cases "step_iterator t < length (steps t)")
  case False
  then show ?thesis using assms by (simp add: execute_step_def)
next
  case True
  let ?c = "steps t ! step_iterator t"
  show ?thesis
  proof (cases "done_step ?c \<or> step_type ?c = ''Python''")
    case True
    then show ?thesis using assms \<open>step_iterator t < length (steps t)\<close>
      by (auto simp: execute_step_def Let_def split: if_splits)
  next
    case False
    show ?thesis
    proof (cases "step_log_file_name ?c")
      case (Inl err)
      then show ?thesis using assms False True by (simp add: execute_step_def Let_def)
    next
      case (Inr n)
      show ?thesis
      proof (cases "in_progress ?c")
        case True
        then have "t' = fst (snd (execute_step_poll e n t w))"
          using assms False Inr \<open>step_iterator t < length (steps t)\<close>
          by (simp add: execute_step_def Let_def)
        then show ?thesis
          using execute_step_poll_task[of e n t w] False \<open>step_iterator t < length (steps t)\<close>
          by auto
      next
        case idle: False
        then have "t' = fst (snd (execute_step_dispatch e n t w))"
          using assms False Inr \<open>step_iterator t < length (steps t)\<close>
          by (simp add: execute_step_def Let_def)
        then show ?thesis
          using execute_step_dispatch_task[of e n t w] False \<open>step_iterator t < length (steps t)\<close>
          by auto
      qed
    qed
  qed
qed

lemma execute_step_cursor:
  "execute_step e t w = (res, t', w') \<Longrightarrow> step_iterator t \<le> step_iterator t'"
  using execute_step_task[of e t w res t' w'] by auto

text \<open>
  Claim C6. Along any sequence of \<^verbatim>\<open>execute_step\<close> calls on a task, in whatever worlds
  and whether calls raise or not, the cursor \<^verbatim>\<open>step_iterator\<close> never decreases.
\<close>

theorem cursor_never_decreases: "polls t t' \<Longrightarrow> step_iterator t \<le> step_iterator t'"
proof (induction rule: polls.induct)
  case (polls_refl t)
  then show ?case by simp
next
  case (polls_step t t' e w res t'' w')
  then show ?case using execute_step_cursor[of e t' w res t'' w'] by simp
qed

theorem cursor_never_decreases_witness:
  "polls (task_of ''local'' [script_step\<lparr>done_step := True\<rparr>, script_step])
         (fst (snd (execute_step env0
                      (task_of ''local'' [script_step\<lparr>done_step := True\<rparr>, script_step]) world0)))
   \<and> step_iterator (task_of ''local'' [script_step\<lparr>done_step := True\<rparr>, script_step]) = 0
   \<and> step_iterator (fst (snd (execute_step env0
                      (task_of ''local'' [script_step\<lparr>done_step := True\<rparr>, script_step]) world0))) = 1"
proof -
  let ?t = "task_of ''local'' [script_step\<lparr>done_step := True\<rparr>, script_step]"
  let ?r = "execute_step env0 ?t world0"
  have "?r = (fst ?r, fst (snd ?r), snd (snd ?r))" by simp
  then have p: "polls ?t (fst (snd ?r))" using polls_step[OF polls_refl] by blast
  have "step_iterator (fst (snd ?r)) = 1"
    by (simp add: execute_step_def task_of_def script_step_def next_step_def)
  then show ?thesis using p cursor_never_decreases[OF p] by (simp add: task_of_def)
qed

section \<open>Python steps\<close>

lemma execute_step_python:
  assumes "step_iterator t < length (steps t)"
    and "\<not> done_step (steps t ! step_iterator t)"
    and "step_type (steps t ! step_iterator t) = ''Python''"
  shows "fst (execute_step e t w) = Inr ()"
    and "fst (snd (execute_step e t w)) = next_step t"
    and "func (steps t ! step_iterator t) = Some call \<Longrightarrow> call w1 = (True, w2) \<Longrightarrow>
         w1 = write_update (''Executing python step: '' @ name (steps t ! step_iterator t)) w \<Longrightarrow>
         snd (snd (execute_step e t w)) = write_update ''Error for optimization plotting'' w2"
  using assms by (simp_all add: execute_step_def Let_def)

text \<open>
  Claim C5. The closure of a Python step is called once, its exception is caught and
  reported to the status, and the task moves on (\<open>execute_step_python\<close>). The claim
  also says the step is marked done; the Python branch never sets \<^verbatim>\<open>current_step.done\<close>,
  as the Script and Analysis branches do: after the call the step is still not done and
  \<^verbatim>\<open>report_state\<close> shows it as \<^verbatim>\<open>X\<close>, while the task is done.
\<close>

theorem python_step_not_marked_done:
  "execute_step env0 (task_of ''local'' [python_step (\<lambda>w. (True, w))]) world0 =
     (Inr (),
      (task_of ''local'' [python_step (\<lambda>w. (True, w))])\<lparr>done_task := True\<rparr>,
      world0\<lparr>status := [''Executing python step: plot'', ''Error for optimization plotting'']\<rparr>)
   \<and> \<not> done_step (steps ((task_of ''local'' [python_step (\<lambda>w. (True, w))])\<lparr>done_task := True\<rparr>) ! 0)
   \<and> report_state ((task_of ''local'' [python_step (\<lambda>w. (True, w))])\<lparr>done_task := True\<rparr>)
       = ''proj|Plot|X|''"
  by (simp add: execute_step_def task_of_def python_step_def next_step_def Let_def
      write_update_def world0_def report_state_def)

section \<open>Probing a step in progress\<close>

text \<open>The address probed with \<^verbatim>\<open>os.path.exists\<close> is the file the helper functions open.\<close>

lemma path_join_empty_mid: "path_join (path_join a '''') b = path_join a b"
  by (auto simp: path_join_def)

lemma in_root_path_in: "in_root t w n = path_in w (sub_folder t) n"
  by (auto simp: in_root_def root_path_def path_in_def path_join_empty_mid split: option.splits)

lemma find_lock_reads:
  "find_lock_error_syndrome n sf w = Inr b \<Longrightarrow> \<exists>c. fs w (path_in w sf n) = Some (File c)"
  by (auto simp: find_lock_error_syndrome_def read_file_def
      split: option.splits node.splits sum.splits)

lemma poll_lock_error_result:
  assumes "fs w (in_root t w n) = Some (File c)"
    and "work_dir w (sub_folder t) = Inr dir"
    and "\<forall>f\<in>set (file_to_check (project_name t) False False).
            \<not> covers (path_join dir f) (in_root t w n)"
  shows "fst (poll_lock_error n t w) = Inr ()"
    and "fst (snd (poll_lock_error n t w)) = upd_current (\<lambda>s. s\<lparr>in_progress := False\<rparr>) t"
    and "fs (snd (snd (poll_lock_error n t w))) (in_root t w n) = None"
    and "f \<in> set (file_to_check (project_name t) False False) \<Longrightarrow>
         fs (snd (snd (poll_lock_error n t w))) (path_join dir f) = None"
proof -
  let ?w2 = "write_update ''Check and remove potential completion and lock files''
               (write_update ''Error lock syndrome detected'' w)"
  have d: "work_dir ?w2 (sub_folder t) = Inr dir"
    using assms(2) by simp
  obtain w3 where w3: "w3 = snd (clean_project_files (project_name t) False False (sub_folder t) ?w2)"
    by simp
  have cl: "clean_project_files (project_name t) False False (sub_folder t) ?w2 = (Inr (), w3)"
    using d by (simp add: clean_project_files_returns w3)
  have keep: "fs w3 (in_root t w n) = Some (File c)"
    using assms(1,3) clean_project_files_preserves[OF d, of "project_name t" False False
        "in_root t w n"]
    by (simp add: w3)
  then have rm: "os_remove (in_root t w n) w3
                   = (Inr (), w3\<lparr>fs := (fs w3)(in_root t w n := None)\<rparr>)"
    by (simp add: os_remove_def)
  have pl: "poll_lock_error n t w =
      (Inr (), upd_current (\<lambda>s. s\<lparr>in_progress := False\<rparr>) t,
       w3\<lparr>fs := (fs w3)(in_root t w n := None)\<rparr>)"
    by (simp add: poll_lock_error_def Let_def cl rm)
  show "fst (poll_lock_error n t w) = Inr ()"
    and "fst (snd (poll_lock_error n t w)) = upd_current (\<lambda>s. s\<lparr>in_progress := False\<rparr>) t"
    and "fs (snd (snd (poll_lock_error n t w))) (in_root t w n) = None"
    by (simp_all add: pl)
  show "f \<in> set (file_to_check (project_name t) False False) \<Longrightarrow>
         fs (snd (snd (poll_lock_error n t w))) (path_join dir f) = None"
    using clean_project_files_removes[OF d, of f "project_name t" False False]
    by (simp add: pl w3)
qed

text \<open>With the empty string as sub folder the probe reaches the cleanup, whose
  \<^verbatim>\<open>os.chdir('')\<close> raises: the log file stays and the step stays in progress.\<close>

lemma poll_lock_error_empty_sub_folder:
  assumes "sub_folder t = Some []"
  shows "fst (poll_lock_error n t w) = Inl FileNotFoundError"
    and "fst (snd (poll_lock_error n t w)) = t"
    and "fs (snd (snd (poll_lock_error n t w))) = fs w"
  using assms by (simp_all add: poll_lock_error_def Let_def clean_project_files_raises)

lemma execute_step_lock_error_empty_sub_folder:
  assumes "step_iterator t < length (steps t)"
    and "\<not> done_step (steps t ! step_iterator t)"
    and "in_progress (steps t ! step_iterator t)"
    and "step_type (steps t ! step_iterator t) \<noteq> ''Python''"
    and "step_log_file_name (steps t ! step_iterator t) = Inr log_name"
    and "find_lock_error_syndrome log_name (sub_folder t) w = Inr True"
    and "sub_folder t = Some []"
  shows "fst (execute_step e t w) = Inl FileNotFoundError"
    and "fst (snd (execute_step e t w)) = t"
    and "fs (snd (snd (execute_step e t w))) = fs w"
proof -
  obtain c where c: "fs w (in_root t w log_name) = Some (File c)"
    using find_lock_reads[OF assms(6)] by (auto simp: in_root_path_in)
  then have ex: "path_exists w (in_root t w log_name)"
    by (simp add: path_exists_def)
  have "execute_step e t w = execute_step_poll e log_name t w"
    using assms(1-5) by (simp add: execute_step_def Let_def)
  then have es: "execute_step e t w = poll_lock_error log_name t w"
    using ex assms(6) by (simp add: execute_step_poll_def)
  show "fst (execute_step e t w) = Inl FileNotFoundError"
    and "fst (snd (execute_step e t w)) = t"
    and "fs (snd (snd (execute_step e t w))) = fs w"
    using poll_lock_error_empty_sub_folder[OF assms(7)] by (simp_all add: es)
qed

text \<open>
  Claim C2, as amended. The current step is in progress and not done, its log file
  exists and a line of it contains the lock-error text; the sub folder of the task is
  not the empty string, so that the cleanup looks its names up in a directory \<open>dir\<close>;
  and the log file is not one of the companion files the cleanup removes, nor below
  one. Then the call returns normally; the companion files and the log file are gone;
  the step is no longer in progress, so that the next call takes the dispatch branch;
  its name and its log file name are unchanged; and its job id is unchanged too: the
  call does not discard it.
\<close>

theorem lock_error_resets_step:
  assumes "step_iterator t < length (steps t)"
    and "\<not> done_step (steps t ! step_iterator t)"
    and "in_progress (steps t ! step_iterator t)"
    and "step_type (steps t ! step_iterator t) \<noteq> ''Python''"
    and "step_log_file_name (steps t ! step_iterator t) = Inr log_name"
    and "find_lock_error_syndrome log_name (sub_folder t) w = Inr True"
    and "work_dir w (sub_folder t) = Inr dir"
    and "\<forall>f\<in>set (file_to_check (project_name t) False False).
            \<not> covers (path_join dir f) (in_root t w log_name)"
  shows "fst (execute_step e t w) = Inr ()
    \<and> fst (snd (execute_step e t w)) = upd_current (\<lambda>s. s\<lparr>in_progress := False\<rparr>) t
    \<and> fs (snd (snd (execute_step e t w))) (in_root t w log_name) = None
    \<and> (\<forall>f\<in>set (file_to_check (project_name t) False False).
          fs (snd (snd (execute_step e t w))) (path_join dir f) = None)
    \<and> \<not> in_progress (steps (fst (snd (execute_step e t w))) ! step_iterator t)
    \<and> \<not> done_step (steps (fst (snd (execute_step e t w))) ! step_iterator t)
    \<and> name (steps (fst (snd (execute_step e t w))) ! step_iterator t)
        = name (steps t ! step_iterator t)
    \<and> step_log_file_name (steps (fst (snd (execute_step e t w))) ! step_iterator t)
        = Inr log_name
    \<and> job_id (steps (fst (snd (execute_step e t w))) ! step_iterator t)
        = job_id (steps t ! step_iterator t)
    \<and> (\<forall>e2 w2. execute_step e2 (fst (snd (execute_step e t w))) w2
                 = execute_step_dispatch e2 log_name (fst (snd (execute_step e t w))) w2)"
proof -
  let ?t' = "upd_current (\<lambda>s. s\<lparr>in_progress := False\<rparr>) t"
  obtain c where c: "fs w (in_root t w log_name) = Some (File c)"
    using find_lock_reads[OF assms(6)] by (auto simp: in_root_path_in)
  then have ex: "path_exists w (in_root t w log_name)"
    by (simp add: path_exists_def)
  have "execute_step e t w = execute_step_poll e log_name t w"
    using assms(1-5) by (simp add: execute_step_def Let_def)
  then have es: "execute_step e t w = poll_lock_error log_name t w"
    using ex assms(6) by (simp add: execute_step_poll_def)
  note pl = poll_lock_error_result[OF c assms(7,8)]
  have cur: "steps ?t' ! step_iterator t = (steps t ! step_iterator t)\<lparr>in_progress := False\<rparr>"
    using assms(1) by (simp add: upd_current_nth)
  have ln: "step_log_file_name ((steps t ! step_iterator t)\<lparr>in_progress := False\<rparr>)
              = Inr log_name"
    using assms(5) by (simp add: step_log_file_name_def split: if_splits)
  have redispatch: "\<And>e2 w2. execute_step e2 ?t' w2 = execute_step_dispatch e2 log_name ?t' w2"
    using assms(1,2,4) cur ln by (simp add: execute_step_def Let_def)
  show ?thesis
    unfolding es using pl cur ln redispatch assms(2) by simp
qed

text \<open>The example of a cluster step in progress, with job id 4711.\<close>

lemma lock_example_syndrome: "find_lock_error_syndrome ''setup.log'' None world_lock = Inr True"
  by (simp add: world_lock_def world0_def find_lock_error_syndrome_def read_file_def
      path_in_def path_join_def readlines_def error_syndrome_def)

lemma lock_example_log_name:
  "step_log_file_name (script_step\<lparr>in_progress := True, job_id := Some ''4711''\<rparr>)
     = Inr ''setup.log''"
  by (simp add: script_step_def step_log_file_name_def splitext_root_def)

lemma lock_example_address:
  "in_root (task_of ''euler'' [script_step\<lparr>in_progress := True, job_id := Some ''4711''\<rparr>])
     world_lock ''setup.log'' = ''/work/setup.log''"
  by (simp add: task_of_def world_lock_def world0_def in_root_def root_path_def path_join_def)

lemma lock_example_branch:
  "execute_step env0
     (task_of ''euler'' [script_step\<lparr>in_progress := True, job_id := Some ''4711''\<rparr>]) world_lock
   = poll_lock_error ''setup.log''
       (task_of ''euler'' [script_step\<lparr>in_progress := True, job_id := Some ''4711''\<rparr>]) world_lock"
proof -
  let ?t = "task_of ''euler'' [script_step\<lparr>in_progress := True, job_id := Some ''4711''\<rparr>]"
  have c: "steps ?t ! step_iterator ?t = script_step\<lparr>in_progress := True, job_id := Some ''4711''\<rparr>"
    "step_iterator ?t < length (steps ?t)" "sub_folder ?t = None"
    by (simp_all add: task_of_def)
  have s: "\<not> done_step (script_step\<lparr>in_progress := True, job_id := Some ''4711''\<rparr>)"
     "in_progress (script_step\<lparr>in_progress := True, job_id := Some ''4711''\<rparr>)"
     "step_type (script_step\<lparr>in_progress := True, job_id := Some ''4711''\<rparr>) \<noteq> ''Python''"
    by (simp_all add: script_step_def)
  have "execute_step env0 ?t world_lock = execute_step_poll env0 ''setup.log'' ?t world_lock"
    using c s lock_example_log_name by (simp add: execute_step_def)
  also have "\<dots> = poll_lock_error ''setup.log'' ?t world_lock"
    using c lock_example_syndrome lock_example_address lock_example_log
    by (simp add: execute_step_poll_def path_exists_def)
  finally show ?thesis .
qed

theorem lock_error_resets_step_witness:
  "step_iterator (task_of ''euler'' [script_step\<lparr>in_progress := True, job_id := Some ''4711''\<rparr>]) < 1
   \<and> in_progress (script_step\<lparr>in_progress := True, job_id := Some ''4711''\<rparr>)
   \<and> find_lock_error_syndrome ''setup.log'' None world_lock = Inr True
   \<and> fst (execute_step env0
            (task_of ''euler'' [script_step\<lparr>in_progress := True, job_id := Some ''4711''\<rparr>])
            world_lock) = Inr ()
   \<and> \<not> in_progress (steps (fst (snd (execute_step env0
            (task_of ''euler'' [script_step\<lparr>in_progress := True, job_id := Some ''4711''\<rparr>])
            world_lock))) ! 0)
   \<and> fs (snd (snd (execute_step env0
            (task_of ''euler'' [script_step\<lparr>in_progress := True, job_id := Some ''4711''\<rparr>])
            world_lock))) ''/work/setup.log'' = None"
proof -
  let ?t = "task_of ''euler'' [script_step\<lparr>in_progress := True, job_id := Some ''4711''\<rparr>]"
  have c: "steps ?t ! step_iterator ?t = script_step\<lparr>in_progress := True, job_id := Some ''4711''\<rparr>"
    "step_iterator ?t = 0" "sub_folder ?t = None" "project_name ?t = ''proj''"
    by (simp_all add: task_of_def)
  have h1: "step_iterator ?t < length (steps ?t)"
    by (simp add: task_of_def)
  have h2: "\<not> done_step (steps ?t ! step_iterator ?t)"
    and h3: "in_progress (steps ?t ! step_iterator ?t)"
    and h4: "step_type (steps ?t ! step_iterator ?t) \<noteq> ''Python''"
    by (simp_all add: task_of_def script_step_def)
  have h5: "step_log_file_name (steps ?t ! step_iterator ?t) = Inr ''setup.log''"
    using lock_example_log_name by (simp add: task_of_def)
  have h6: "find_lock_error_syndrome ''setup.log'' (sub_folder ?t) world_lock = Inr True"
    by (simp add: c lock_example_syndrome)
  have h7: "work_dir world_lock (sub_folder ?t) = Inr ''/work''"
    by (simp add: c lock_example_work_dir)
  have h8: "\<forall>f\<in>set (file_to_check (project_name ?t) False False).
      \<not> covers (path_join ''/work'' f) (in_root ?t world_lock ''setup.log'')"
    using lock_example_apart by (simp add: c lock_example_address)
  note r = lock_error_resets_step[where e = env0, OF h1 h2 h3 h4 h5 h6 h7 h8]
  from r have "fst (execute_step env0 ?t world_lock) = Inr ()"
    and "\<not> in_progress (steps (fst (snd (execute_step env0 ?t world_lock))) ! step_iterator ?t)"
    and "fs (snd (snd (execute_step env0 ?t world_lock))) (in_root ?t world_lock ''setup.log'') = None"
    by blast+
  then show ?thesis using h3 lock_example_syndrome by (simp add: c lock_example_address)
qed

text \<open>
  The claim as stated fails on this example: the step is in progress, its log shows the
  lock error, the call returns normally, and the step still carries the job id 4711.
\<close>

theorem lock_error_keeps_job_id:
  "in_progress (steps (task_of ''euler''
       [script_step\<lparr>in_progress := True, job_id := Some ''4711''\<rparr>]) ! 0)
   \<and> find_lock_error_syndrome ''setup.log'' None world_lock = Inr True
   \<and> fst (execute_step env0
            (task_of ''euler'' [script_step\<lparr>in_progress := True, job_id := Some ''4711''\<rparr>])
            world_lock) = Inr ()
   \<and> job_id (steps (fst (snd (execute_step env0
            (task_of ''euler'' [script_step\<lparr>in_progress := True, job_id := Some ''4711''\<rparr>])
            world_lock))) ! 0) = Some ''4711''"
proof -
  let ?t = "task_of ''euler'' [script_step\<lparr>in_progress := True, job_id := Some ''4711''\<rparr>]"
  have c: "project_name ?t = ''proj''" "sub_folder ?t = None"
    by (simp_all add: task_of_def)
  have r: "fst (poll_lock_error ''setup.log'' ?t world_lock) = Inr ()"
     "fst (snd (poll_lock_error ''setup.log'' ?t world_lock))
        = upd_current (\<lambda>s. s\<lparr>in_progress := False\<rparr>) ?t"
    using poll_lock_error_result(1,2)[of world_lock ?t "''setup.log''" _ "''/work''"]
      lock_example_address lock_example_apart lock_example_log lock_example_work_dir c
    by simp_all
  have j: "job_id (steps (upd_current (\<lambda>s. s\<lparr>in_progress := False\<rparr>) ?t) ! 0) = Some ''4711''"
    by (simp add: upd_current_def task_of_def script_step_def)
  have i: "in_progress (steps ?t ! 0)"
    by (simp add: task_of_def script_step_def)
  show ?thesis
    using r j i lock_example_syndrome by (simp add: lock_example_branch)
qed

text \<open>The same task with the empty string as sub folder: the call raises, the step is
  still in progress and the log file is still there.\<close>

lemma lock_error_empty_sub_folder_example:
  "fst (execute_step env0
          ((task_of ''euler'' [script_step\<lparr>in_progress := True, job_id := Some ''4711''\<rparr>])
             \<lparr>sub_folder := Some []\<rparr>) world_lock) = Inl FileNotFoundError
   \<and> in_progress (steps (fst (snd (execute_step env0
          ((task_of ''euler'' [script_step\<lparr>in_progress := True, job_id := Some ''4711''\<rparr>])
             \<lparr>sub_folder := Some []\<rparr>) world_lock))) ! 0)
   \<and> fs (snd (snd (execute_step env0
          ((task_of ''euler'' [script_step\<lparr>in_progress := True, job_id := Some ''4711''\<rparr>])
             \<lparr>sub_folder := Some []\<rparr>) world_lock))) ''/work/setup.log''
       = fs world_lock ''/work/setup.log''"
proof -
  let ?t = "(task_of ''euler'' [script_step\<lparr>in_progress := True, job_id := Some ''4711''\<rparr>])
              \<lparr>sub_folder := Some []\<rparr>"
  have c: "steps ?t ! step_iterator ?t = script_step\<lparr>in_progress := True, job_id := Some ''4711''\<rparr>"
    "step_iterator ?t = 0" "sub_folder ?t = Some []"
    by (simp_all add: task_of_def)
  have h1: "step_iterator ?t < length (steps ?t)"
    by (simp add: task_of_def)
  have h2: "\<not> done_step (steps ?t ! step_iterator ?t)"
    and h3: "in_progress (steps ?t ! step_iterator ?t)"
    and h4: "step_type (steps ?t ! step_iterator ?t) \<noteq> ''Python''"
    by (simp_all add: task_of_def script_step_def)
  have h5: "step_log_file_name (steps ?t ! step_iterator ?t) = Inr ''setup.log''"
    using lock_example_log_name by (simp add: task_of_def)
  have h6: "find_lock_error_syndrome ''setup.log'' (sub_folder ?t) world_lock = Inr True"
    unfolding c(3)
    by (simp add: world_lock_def world0_def find_lock_error_syndrome_def read_file_def
        path_in_def path_join_def readlines_def error_syndrome_def)
  note r = execute_step_lock_error_empty_sub_folder[OF h1 h2 h3 h4 h5 h6 c(3), of env0]
  show ?thesis using r h3 c(2) by simp
qed

lemma poll_euler_changed:
  "fst (snd (poll_euler e n t w)) \<noteq> t \<Longrightarrow>
   \<exists>j. job_id (steps t ! step_iterator t) = Some j
       \<and> path_exists w (in_root t w (''lsf.o'' @ j))"
  by (auto simp: poll_euler_def Let_def split: option.splits if_splits prod.splits sum.splits)

lemma poll_lock_error_done:
  "done_step (steps (fst (snd (poll_lock_error n t w))) ! i) = done_step (steps t ! i)"
  using poll_lock_error_task[of n t w] by (auto simp: upd_current_nth split: if_splits)

text \<open>
  Claim C3. On the cluster backend, for a step in progress and not yet done: if the call
  leaves the step done, then its log file exists, no line of it contains the lock-error
  text, the step has a job id and the report file \<^verbatim>\<open>lsf.o<jobId>\<close> exists in the working
  directory; so when the report file is absent the step is not done after the call,
  whatever the log holds.
\<close>

theorem euler_done_needs_report:
  assumes "exec_option t = ''euler''"
    and "step_iterator t < length (steps t)"
    and "in_progress (steps t ! step_iterator t)"
    and "\<not> done_step (steps t ! step_iterator t)"
  shows "(done_step (steps (fst (snd (execute_step e t w))) ! step_iterator t) \<longrightarrow>
           (\<exists>log_name j.
              step_log_file_name (steps t ! step_iterator t) = Inr log_name
              \<and> path_exists w (in_root t w log_name)
              \<and> find_lock_error_syndrome log_name (sub_folder t) w = Inr False
              \<and> job_id (steps t ! step_iterator t) = Some j
              \<and> path_exists w (in_root t w (''lsf.o'' @ j))))
       \<and> ((\<forall>j. job_id (steps t ! step_iterator t) = Some j \<longrightarrow>
                \<not> path_exists w (in_root t w (''lsf.o'' @ j))) \<longrightarrow>
           \<not> done_step (steps (fst (snd (execute_step e t w))) ! step_iterator t))"
proof -
  let ?c = "steps t ! step_iterator t"
  let ?t' = "fst (snd (execute_step e t w))"
  have main: "\<exists>log_name j.
              step_log_file_name ?c = Inr log_name
              \<and> path_exists w (in_root t w log_name)
              \<and> find_lock_error_syndrome log_name (sub_folder t) w = Inr False
              \<and> job_id ?c = Some j
              \<and> path_exists w (in_root t w (''lsf.o'' @ j))"
    if d: "done_step (steps ?t' ! step_iterator t)"
  proof -
    have np: "step_type ?c \<noteq> ''Python''"
    proof
      assume "step_type ?c = ''Python''"
      then have "?t' = next_step t"
        using assms(2,4) by (simp add: execute_step_def Let_def)
      then show False using d assms(4) by simp
    qed
    obtain n where n: "step_log_file_name ?c = Inr n"
    proof (cases "step_log_file_name ?c")
      case (Inl err)
      then have "?t' = t"
        using assms(2,4) np by (simp add: execute_step_def Let_def)
      then show ?thesis using d assms(4) by simp
    next
      case (Inr n)
      then show ?thesis using that by simp
    qed
    have es: "execute_step e t w = execute_step_poll e n t w"
      using assms(2,3,4) np n by (simp add: execute_step_def Let_def)
    have ex: "path_exists w (in_root t w n)"
    proof (rule ccontr)
      assume "\<not> path_exists w (in_root t w n)"
      then have "?t' = t" by (simp add: es execute_step_poll_def)
      then show False using d assms(4) by simp
    qed
    have fl: "find_lock_error_syndrome n (sub_folder t) w = Inr False"
    proof (cases "find_lock_error_syndrome n (sub_folder t) w")
      case (Inl err)
      then have "?t' = t" using ex by (simp add: es execute_step_poll_def)
      then show ?thesis using d assms(4) by simp
    next
      case (Inr b)
      show ?thesis
      proof (cases b)
        case True
        then have "execute_step e t w = poll_lock_error n t w"
          using ex Inr by (simp add: es execute_step_poll_def)
        then show ?thesis
          using d assms(4) poll_lock_error_done[of n t w "step_iterator t"] by simp
      next
        case False
        then show ?thesis using Inr by simp
      qed
    qed
    have "execute_step e t w = poll_euler e n t w"
      using ex fl assms(1) by (simp add: es execute_step_poll_def)
    moreover have "?t' \<noteq> t" using d assms(4) by auto
    ultimately obtain j where "job_id ?c = Some j" "path_exists w (in_root t w (''lsf.o'' @ j))"
      using poll_euler_changed[of e n t w] by auto
    then show ?thesis using n ex fl by blast
  qed
  show ?thesis using main by blast
qed

theorem euler_done_needs_report_witness:
  "exec_option (task_of ''euler'' [script_step\<lparr>in_progress := True, job_id := Some ''4711''\<rparr>])
     = ''euler''
   \<and> in_progress (steps (task_of ''euler''
        [script_step\<lparr>in_progress := True, job_id := Some ''4711''\<rparr>]) ! 0)
   \<and> \<not> done_step (steps (task_of ''euler''
        [script_step\<lparr>in_progress := True, job_id := Some ''4711''\<rparr>]) ! 0)
   \<and> path_exists world_log_only ''/work/setup.log''
   \<and> \<not> path_exists world_log_only ''/work/lsf.o4711''
   \<and> \<not> done_step (steps (fst (snd (execute_step env0
         (task_of ''euler'' [script_step\<lparr>in_progress := True, job_id := Some ''4711''\<rparr>])
         world_log_only))) ! 0)"
proof -
  let ?t = "task_of ''euler'' [script_step\<lparr>in_progress := True, job_id := Some ''4711''\<rparr>]"
  have c: "exec_option ?t = ''euler''" "step_iterator ?t < length (steps ?t)"
    "step_iterator ?t = 0"
    "in_progress (steps ?t ! step_iterator ?t)" "\<not> done_step (steps ?t ! step_iterator ?t)"
    "job_id (steps ?t ! step_iterator ?t) = Some ''4711''"
    by (simp_all add: task_of_def script_step_def)
  have r: "in_root ?t world_log_only (''lsf.o'' @ ''4711'') = ''/work/lsf.o4711''"
    by (simp add: in_root_def root_path_def path_join_def task_of_def world_log_only_def
        world0_def)
  have p: "path_exists world_log_only ''/work/setup.log''"
    "\<not> path_exists world_log_only ''/work/lsf.o4711''"
    by (simp_all add: path_exists_def world_log_only_def world0_def)
  have "\<not> done_step (steps (fst (snd (execute_step env0 ?t world_log_only))) ! step_iterator ?t)"
    using euler_done_needs_report[OF c(1,2,4,5), of env0 world_log_only] c(6) r p by simp
  then show ?thesis using c p by simp
qed

section \<open>Completion, waiting and dispatch\<close>

text \<open>The other direction of the probe: a complete log (and, on the cluster, a delivered
  report) does make the step done.\<close>


lemma clean_project_files_ok:
  "sf \<noteq> Some [] \<Longrightarrow> fst (clean_project_files pn a r sf w) = Inr ()"
  using work_dir_Inl[of w sf] by (cases "work_dir w sf") (auto simp: clean_project_files_def)

lemma path_in_write_update [simp]: "path_in (write_update x w) sf n = path_in w sf n"
  by (simp add: path_in_def split: option.splits)

lemma detect_errors_reads:
  assumes "fs w (path_in w sf n) = Some (File c)"
  shows "fst (detect_errors_from_log_file n sf dw w) = Inr ()"
    and "fs (snd (detect_errors_from_log_file n sf dw w)) = fs w"
  using assms by (simp_all add: detect_errors_from_log_file_def read_file_def Let_def)

lemma poll_euler_completes:
  assumes "job_id (steps t ! step_iterator t) = Some j"
    and "fs w (in_root t w (''lsf.o'' @ j)) = Some (File r)"
    and "fs w (in_root t w n) = Some (File c)"
    and "\<not> isdir w (in_root t w (''lfs_'' @ splitext_root n @ ''.txt''))"
    and "sub_folder t \<noteq> Some []"
  shows "fst (poll_euler e n t w) = Inr ()"
    and "fst (snd (poll_euler e n t w)) = upd_current (\<lambda>s. s\<lparr>done_step := True\<rparr>) t"
proof -
  let ?w1 = "write_update ''No error lock syndrome detected'' w"
  let ?d = "detect_errors_from_log_file n (sub_folder t) (display_warning t) ?w1"
  have p: "fs ?w1 (path_in ?w1 (sub_folder t) n) = Some (File c)"
    using assms(3) by (simp add: in_root_path_in)
  note d = detect_errors_reads[OF p, of "display_warning t"]
  obtain w2 where w2: "?d = (Inr (), w2)" "fs w2 = fs w"
    using d by (cases ?d) auto
  obtain w3 where rn: "os_rename (in_root t w (''lsf.o'' @ j))
                   (in_root t w (''lfs_'' @ splitext_root n @ ''.txt'')) w2 = (Inr (), w3)"
    using assms(2,4) w2(2) by (simp add: os_rename_def isdir_def)
  have ex: "path_exists w (in_root t w (''lsf.o'' @ j))"
    using assms(2) by (simp add: path_exists_def)
  let ?w5 = "write_update ''Preventive cleaning''
               (write_update ('' lsf.o file renamed to lsf_'' @ splitext_root n) w3)"
  obtain w6 where cl: "clean_project_files (project_name t) False False (sub_folder t) ?w5
                         = (Inr (), w6)"
    using clean_project_files_ok[OF assms(5), of "project_name t" False False ?w5]
    by (cases "clean_project_files (project_name t) False False (sub_folder t) ?w5") auto
  show "fst (poll_euler e n t w) = Inr ()"
    and "fst (snd (poll_euler e n t w)) = upd_current (\<lambda>s. s\<lparr>done_step := True\<rparr>) t"
    using assms(1) ex w2(1) rn cl
    by (simp_all add: poll_euler_def Let_def)
qed

lemma execute_step_euler_completes:
  assumes "exec_option t = ''euler''"
    and "step_iterator t < length (steps t)"
    and "in_progress (steps t ! step_iterator t)"
    and "\<not> done_step (steps t ! step_iterator t)"
    and "step_type (steps t ! step_iterator t) \<noteq> ''Python''"
    and "step_log_file_name (steps t ! step_iterator t) = Inr n"
    and "find_lock_error_syndrome n (sub_folder t) w = Inr False"
    and "job_id (steps t ! step_iterator t) = Some j"
    and "fs w (in_root t w (''lsf.o'' @ j)) = Some (File r)"
    and "\<not> isdir w (in_root t w (''lfs_'' @ splitext_root n @ ''.txt''))"
    and "sub_folder t \<noteq> Some []"
  shows "fst (execute_step e t w) = Inr ()"
    and "done_step (steps (fst (snd (execute_step e t w))) ! step_iterator t)"
proof -
  obtain c where c: "fs w (in_root t w n) = Some (File c)"
    using find_lock_reads[OF assms(7)] by (auto simp: in_root_path_in)
  then have ex: "path_exists w (in_root t w n)"
    by (simp add: path_exists_def)
  have "execute_step e t w = execute_step_poll e n t w"
    using assms(2-6) by (simp add: execute_step_def Let_def)
  then have es: "execute_step e t w = poll_euler e n t w"
    using ex assms(1,7) by (simp add: execute_step_poll_def)
  note pe = poll_euler_completes[OF assms(8,9) c assms(10,11), of e]
  show "fst (execute_step e t w) = Inr ()"
    and "done_step (steps (fst (snd (execute_step e t w))) ! step_iterator t)"
    using pe assms(2) by (simp_all add: es upd_current_nth)
qed

lemma poll_local_completes:
  assumes "fs w (in_root t w n) = Some (File c)"
    and "sub_folder t \<noteq> Some []"
  shows "fst (poll_local n t w) = Inr ()"
    and "fst (snd (poll_local n t w)) = upd_current (\<lambda>s. s\<lparr>done_step := True\<rparr>) t"
proof -
  let ?w1 = "write_update ''No error lock syndrome detected'' w"
  let ?d = "detect_errors_from_log_file n (sub_folder t) (display_warning t) ?w1"
  have p: "fs ?w1 (path_in ?w1 (sub_folder t) n) = Some (File c)"
    using assms(1) by (simp add: in_root_path_in)
  note d = detect_errors_reads[OF p, of "display_warning t"]
  obtain w2 where w2: "?d = (Inr (), w2)"
    using d by (cases ?d) auto
  let ?w3 = "write_update ''Preventive cleaning'' w2"
  obtain w4 where cl: "clean_project_files (project_name t) False False (sub_folder t) ?w3
                         = (Inr (), w4)"
    using clean_project_files_ok[OF assms(2), of "project_name t" False False ?w3]
    by (cases "clean_project_files (project_name t) False False (sub_folder t) ?w3") auto
  show "fst (poll_local n t w) = Inr ()"
    and "fst (snd (poll_local n t w)) = upd_current (\<lambda>s. s\<lparr>done_step := True\<rparr>) t"
    using w2 cl by (simp_all add: poll_local_def Let_def)
qed

lemma execute_step_local_completes:
  assumes "exec_option t = ''local''"
    and "step_iterator t < length (steps t)"
    and "in_progress (steps t ! step_iterator t)"
    and "\<not> done_step (steps t ! step_iterator t)"
    and "step_type (steps t ! step_iterator t) \<noteq> ''Python''"
    and "step_log_file_name (steps t ! step_iterator t) = Inr n"
    and "find_lock_error_syndrome n (sub_folder t) w = Inr False"
    and "sub_folder t \<noteq> Some []"
  shows "fst (execute_step e t w) = Inr ()"
    and "done_step (steps (fst (snd (execute_step e t w))) ! step_iterator t)"
    and "fst (snd (execute_step e t w)) = upd_current (\<lambda>s. s\<lparr>done_step := True\<rparr>) t"
proof -
  obtain c where c: "fs w (in_root t w n) = Some (File c)"
    using find_lock_reads[OF assms(7)] by (auto simp: in_root_path_in)
  then have ex: "path_exists w (in_root t w n)"
    by (simp add: path_exists_def)
  have "execute_step e t w = execute_step_poll e n t w"
    using assms(2-6) by (simp add: execute_step_def Let_def)
  then have es: "execute_step e t w = poll_local n t w"
    using ex assms(1,7) by (simp add: execute_step_poll_def)
  show "fst (execute_step e t w) = Inr ()"
    and "done_step (steps (fst (snd (execute_step e t w))) ! step_iterator t)"
    and "fst (snd (execute_step e t w)) = upd_current (\<lambda>s. s\<lparr>done_step := True\<rparr>) t"
    using poll_local_completes[OF c assms(8)] assms(2) by (simp_all add: es upd_current_nth)
qed

text \<open>While the log file has not appeared, a call changes nothing: the task waits, with
  no timeout.\<close>

lemma execute_step_waits:
  assumes "step_iterator t < length (steps t)"
    and "in_progress (steps t ! step_iterator t)"
    and "\<not> done_step (steps t ! step_iterator t)"
    and "step_type (steps t ! step_iterator t) \<noteq> ''Python''"
    and "step_log_file_name (steps t ! step_iterator t) = Inr n"
    and "\<not> path_exists w (in_root t w n)"
  shows "execute_step e t w = (Inr (), t, w)"
  using assms by (simp add: execute_step_def Let_def execute_step_poll_def)

text \<open>When the log file is itself one of the companion files, the cleanup removes it and
  \<^verbatim>\<open>os.remove\<close> then raises: the step stays in progress.\<close>

lemma poll_lock_error_companion:
  assumes "f \<in> set (file_to_check (project_name t) False False)"
    and "work_dir w (sub_folder t) = Inr dir"
    and "in_root t w n = path_join dir f"
  shows "fst (poll_lock_error n t w) = Inl FileNotFoundError"
    and "fst (snd (poll_lock_error n t w)) = t"
proof -
  let ?w2 = "write_update ''Check and remove potential completion and lock files''
               (write_update ''Error lock syndrome detected'' w)"
  have d: "work_dir ?w2 (sub_folder t) = Inr dir"
    using assms(2) by simp
  obtain w3 where w3: "w3 = snd (clean_project_files (project_name t) False False (sub_folder t) ?w2)"
    by simp
  have cl: "clean_project_files (project_name t) False False (sub_folder t) ?w2 = (Inr (), w3)"
    using d by (simp add: clean_project_files_returns w3)
  have "fs w3 (in_root t w n) = None"
    using clean_project_files_removes[OF d assms(1)] assms(3) by (simp add: w3)
  then have "os_remove (in_root t w n) w3 = (Inl FileNotFoundError, w3)"
    by (simp add: os_remove_def)
  then show "fst (poll_lock_error n t w) = Inl FileNotFoundError"
    and "fst (snd (poll_lock_error n t w)) = t"
    by (simp_all add: poll_lock_error_def Let_def cl)
qed

lemma lock_error_log_is_companion:
  "fst (execute_step env0 (task_of ''local'' [analysis_step]) world_log_is_lock)
     = Inl FileNotFoundError
   \<and> in_progress (steps (fst (snd (execute_step env0 (task_of ''local'' [analysis_step])
                                     world_log_is_lock))) ! 0)"
proof -
  let ?t = "task_of ''local'' [analysis_step]"
  let ?w = "world_log_is_lock"
  have a: "in_root ?t ?w ''proj.aedt.lock'' = ''/work/proj.aedt.lock''"
    by (simp add: task_of_def world_log_is_lock_def world0_def in_root_def root_path_def
        path_join_def)
  have fl: "find_lock_error_syndrome ''proj.aedt.lock'' (sub_folder ?t) ?w = Inr True"
    by (simp add: task_of_def world_log_is_lock_def world0_def find_lock_error_syndrome_def
        read_file_def path_in_def path_join_def readlines_def error_syndrome_def)
  have ex: "path_exists ?w ''/work/proj.aedt.lock''"
    by (simp add: path_exists_def world_log_is_lock_def world0_def)
  have "execute_step env0 ?t ?w = execute_step_poll env0 ''proj.aedt.lock'' ?t ?w"
    by (simp add: execute_step_def task_of_def analysis_step_def step_log_file_name_def)
  then have es: "execute_step env0 ?t ?w = poll_lock_error ''proj.aedt.lock'' ?t ?w"
    using a fl ex by (simp add: execute_step_poll_def)
  have m: "''proj'' @ ''.aedt.lock'' \<in> set (file_to_check (project_name ?t) False False)"
    by (simp add: file_to_check_def task_of_def)
  have wd: "work_dir ?w (sub_folder ?t) = Inr ''/work''"
    by (simp add: task_of_def world_log_is_lock_def world0_def work_dir_def)
  have p: "in_root ?t ?w ''proj.aedt.lock'' = path_join ''/work'' (''proj'' @ ''.aedt.lock'')"
    by (simp add: a) (simp add: path_join_def)
  note r = poll_lock_error_companion[OF m wd p]
  have "in_progress (steps ?t ! 0)"
    by (simp add: task_of_def analysis_step_def)
  then show ?thesis using r by (simp add: es)
qed

lemma execute_step_dispatch_local_script:
  assumes "exec_option t = ''local''"
    and "step_iterator t < length (steps t)"
    and "\<not> done_step (steps t ! step_iterator t)"
    and "\<not> in_progress (steps t ! step_iterator t)"
    and "step_type (steps t ! step_iterator t) = ''Script''"
    and "script_name (steps t ! step_iterator t) = Some sn"
    and "ansys_exec_address t = Some address"
    and "\<not> path_exists w (in_root t w (splitext_root sn @ ''.log''))"
    and "sub_folder t \<noteq> Some []"
  shows "execute_step e t w =
     (Inr (), upd_current (\<lambda>s. s\<lparr>in_progress := True\<rparr>) t,
      snd (execute_script e sn (project_name t @ ''.aedt'') ''local'' (Some address)
             (resources_requested (steps t ! step_iterator t))
             (bash_file_name (steps t ! step_iterator t)) None (sub_folder t)
             (write_update (''Executing '' @ splitext_root (splitext_root sn @ ''.log'')) w)))"
  using assms
  by (simp add: execute_step_def Let_def step_log_file_name_def execute_step_dispatch_def
      remove_stale_log_def dispatch_job_def execute_script_local)

section \<open>When a task is done\<close>

text \<open>One call on a task that is not done sets \<^verbatim>\<open>done\<close> exactly when the cursor is on the
  last step and that step is done, provided the last step is not a Python step.\<close>

lemma execute_step_done_task:
  assumes "\<not> done_task t"
    and "step_iterator t + 1 = length (steps t) \<longrightarrow>
         step_type (steps t ! step_iterator t) \<noteq> ''Python''"
  shows "done_task (fst (snd (execute_step e t w))) \<longleftrightarrow> last_step_done t"
proof (cases "step_iterator t < length (steps t)")
  case False
  then show ?thesis using assms by (auto simp: execute_step_def last_step_done_def)
next
  case True
  show ?thesis
  proof (cases "done_step (steps t ! step_iterator t)")
    case d: True
    then show ?thesis using True assms
      by (simp add: execute_step_def Let_def next_step_def last_step_done_def)
  next
    case nd: False
    obtain res t' w' where r: "execute_step e t w = (res, t', w')"
      by (cases "execute_step e t w") auto
    have "done_task t' = done_task t"
      using execute_step_task[OF r] nd assms True by (auto simp: next_step_def)
    then show ?thesis using r nd assms(1) by (simp add: last_step_done_def)
  qed
qed

text \<open>The type of the last step never changes, and a task that is done has its cursor on
  the last step, which is done.\<close>

lemma last_step_at_cursor:
  assumes "steps t \<noteq> [] \<longrightarrow> step_type (steps t ! (length (steps t) - 1)) \<noteq> ''Python''"
  shows "step_iterator t + 1 = length (steps t) \<longrightarrow>
         step_type (steps t ! step_iterator t) \<noteq> ''Python''"
proof
  assume h: "step_iterator t + 1 = length (steps t)"
  then have e: "length (steps t) - 1 = step_iterator t" and ne: "steps t \<noteq> []"
    by auto
  from assms ne have "step_type (steps t ! (length (steps t) - 1)) \<noteq> ''Python''"
    by blast
  then show "step_type (steps t ! step_iterator t) \<noteq> ''Python''"
    using e by simp
qed

lemma execute_step_keeps_invariant:
  assumes "execute_step e t w = (res, t', w')"
    and "steps t \<noteq> [] \<longrightarrow> step_type (steps t ! (length (steps t) - 1)) \<noteq> ''Python''"
    and "done_task t \<longrightarrow> last_step_done t"
  shows "(steps t' \<noteq> [] \<longrightarrow> step_type (steps t' ! (length (steps t') - 1)) \<noteq> ''Python'')
       \<and> (done_task t' \<longrightarrow> last_step_done t')"
proof -
  note a = last_step_at_cursor[OF assms(2)]
  show ?thesis
    using execute_step_task[OF assms(1)] assms(2,3) a
    by (auto simp: upd_current_nth last_step_done_def next_step_def split: if_splits)
qed

lemma polls_invariant:
  assumes "polls t0 t"
    and "\<not> done_task t0"
    and "steps t0 \<noteq> [] \<longrightarrow> step_type (steps t0 ! (length (steps t0) - 1)) \<noteq> ''Python''"
  shows "(steps t \<noteq> [] \<longrightarrow> step_type (steps t ! (length (steps t) - 1)) \<noteq> ''Python'')
       \<and> (done_task t \<longrightarrow> last_step_done t)"
  using assms
proof (induction rule: polls.induct)
  case (polls_refl t)
  then show ?case by simp
next
  case (polls_step t t' e w res t'' w')
  then show ?case using execute_step_keeps_invariant[of e t' w res t'' w'] by blast
qed

lemma execute_step_cursor_in_range:
  assumes "execute_step e t w = (res, t', w')"
    and "step_iterator t < length (steps t)"
  shows "step_iterator t' < length (steps t')"
  using execute_step_task[OF assms(1)] assms(2)
  by (auto simp: next_step_def)

lemma polls_cursor_in_range:
  "polls t0 t \<Longrightarrow> step_iterator t0 < length (steps t0) \<Longrightarrow>
   step_iterator t < length (steps t)"
proof (induction rule: polls.induct)
  case (polls_refl t)
  then show ?case by simp
next
  case (polls_step t t' e w res t'' w')
  then show ?case using execute_step_cursor_in_range[of e t' w res t'' w'] by simp
qed

text \<open>A task of a Python step and a Script step on the local backend, driven through
  three calls: the Python step runs, the script is dispatched, and, once its log is
  there, the script step is done.\<close>

lemma two_step_run:
  "polls (task_of ''local'' [python_step (\<lambda>w. (False, w)), script_step])
     (upd_current (\<lambda>s. s\<lparr>done_step := True\<rparr>)
        (upd_current (\<lambda>s. s\<lparr>in_progress := True\<rparr>)
           (next_step (task_of ''local'' [python_step (\<lambda>w. (False, w)), script_step]))))"
proof -
  let ?t0 = "task_of ''local'' [python_step (\<lambda>w. (False, w)), script_step]"
  let ?t1 = "next_step ?t0"
  let ?t2 = "upd_current (\<lambda>s. s\<lparr>in_progress := True\<rparr>) ?t1"
  let ?t3 = "upd_current (\<lambda>s. s\<lparr>done_step := True\<rparr>) ?t2"
  have c0: "step_iterator ?t0 < length (steps ?t0)"
    "\<not> done_step (steps ?t0 ! step_iterator ?t0)"
    "step_type (steps ?t0 ! step_iterator ?t0) = ''Python''"
    by (simp_all add: task_of_def python_step_def)
  have s1: "fst (snd (execute_step env0 ?t0 world0)) = ?t1"
    using execute_step_python(2)[OF c0] .
  have t1: "?t1 = (task_of ''local'' [python_step (\<lambda>w. (False, w)), script_step])
                    \<lparr>step_iterator := 1\<rparr>"
    by (simp add: next_step_def task_of_def)
  have c1: "exec_option ?t1 = ''local''" "step_iterator ?t1 < length (steps ?t1)"
    "\<not> done_step (steps ?t1 ! step_iterator ?t1)"
    "\<not> in_progress (steps ?t1 ! step_iterator ?t1)"
    "step_type (steps ?t1 ! step_iterator ?t1) = ''Script''"
    "script_name (steps ?t1 ! step_iterator ?t1) = Some ''setup.vbs''"
    "ansys_exec_address ?t1 = Some ''ansysedt.exe''"
    "\<not> path_exists world0 (in_root ?t1 world0 (splitext_root ''setup.vbs'' @ ''.log''))"
    "sub_folder ?t1 \<noteq> Some []"
    unfolding t1 by (simp_all add: task_of_def script_step_def path_exists_def world0_def)
  have s2: "fst (snd (execute_step env0 ?t1 world0)) = ?t2"
    using execute_step_dispatch_local_script[OF c1, of env0] by simp
  have t2: "?t2 = (task_of ''local''
                     [python_step (\<lambda>w. (False, w)), script_step\<lparr>in_progress := True\<rparr>])
                    \<lparr>step_iterator := 1\<rparr>"
    unfolding t1 by (simp add: upd_current_def task_of_def)
  have n: "step_log_file_name (script_step\<lparr>in_progress := True\<rparr>) = Inr ''setup.log''"
    by (simp add: script_step_def step_log_file_name_def splitext_root_def)
  have fl: "find_lock_error_syndrome ''setup.log'' None world_log_only = Inr False"
    by (simp add: world_log_only_def world0_def find_lock_error_syndrome_def read_file_def
        path_in_def path_join_def readlines_def error_syndrome_def)
  have c2: "exec_option ?t2 = ''local''" "step_iterator ?t2 < length (steps ?t2)"
    "in_progress (steps ?t2 ! step_iterator ?t2)"
    "\<not> done_step (steps ?t2 ! step_iterator ?t2)"
    "step_type (steps ?t2 ! step_iterator ?t2) \<noteq> ''Python''"
    "step_log_file_name (steps ?t2 ! step_iterator ?t2) = Inr ''setup.log''"
    "find_lock_error_syndrome ''setup.log'' (sub_folder ?t2) world_log_only = Inr False"
    "sub_folder ?t2 \<noteq> Some []"
    unfolding t2 using n fl by (simp_all add: task_of_def) (simp_all add: script_step_def)
  have s3: "fst (snd (execute_step env0 ?t2 world_log_only)) = ?t3"
    using execute_step_local_completes(3)[OF c2, of env0] .
  have p0: "polls ?t0 ?t0" by (rule polls_refl)
  have e1: "execute_step env0 ?t0 world0
      = (fst (execute_step env0 ?t0 world0), ?t1, snd (snd (execute_step env0 ?t0 world0)))"
    using s1 by (metis prod.collapse)
  have e2: "execute_step env0 ?t1 world0
      = (fst (execute_step env0 ?t1 world0), ?t2, snd (snd (execute_step env0 ?t1 world0)))"
    using s2 by (metis prod.collapse)
  have e3: "execute_step env0 ?t2 world_log_only
      = (fst (execute_step env0 ?t2 world_log_only), ?t3,
         snd (snd (execute_step env0 ?t2 world_log_only)))"
    using s3 by (metis prod.collapse)
  have p1: "polls ?t0 ?t1" using polls_step[OF p0 e1] .
  have p2: "polls ?t0 ?t2" using polls_step[OF p1 e2] .
  show "polls ?t0 ?t3" using polls_step[OF p2 e3] .
qed

lemma two_step_run_end:
  "upd_current (\<lambda>s. s\<lparr>done_step := True\<rparr>)
        (upd_current (\<lambda>s. s\<lparr>in_progress := True\<rparr>)
           (next_step (task_of ''local'' [python_step (\<lambda>w. (False, w)), script_step])))
   = (task_of ''local'' [python_step (\<lambda>w. (False, w)),
                         script_step\<lparr>done_step := True, in_progress := True\<rparr>])
       \<lparr>step_iterator := 1\<rparr>"
  by (simp add: upd_current_def next_step_def task_of_def)

text \<open>
  Claim C1, as amended. The cursor never addresses past the last step: \<^verbatim>\<open>next_step\<close>
  leaves it on the last step and sets \<^verbatim>\<open>done\<close> instead, so a cursor that starts on a step
  stays on a step. For a task whose last step is a Script or Analysis step (Python steps
  may come before it) and that starts not done, after any sequence of \<^verbatim>\<open>execute_step\<close>
  calls: if \<^verbatim>\<open>done\<close> is set, the cursor is on the last step and that step is done; and
  while \<^verbatim>\<open>done\<close> is not set, one more call sets it exactly when the cursor is on the last
  step and that step is done.
\<close>

theorem done_exactly_after_last_step_done:
  assumes "polls t0 t"
    and "\<not> done_task t0"
    and "steps t0 \<noteq> [] \<longrightarrow> step_type (last (steps t0)) \<noteq> ''Python''"
  shows "(done_task t \<longrightarrow> last_step_done t)
       \<and> (\<not> done_task t \<longrightarrow>
            (done_task (fst (snd (execute_step e t w))) \<longleftrightarrow> last_step_done t))
       \<and> (step_iterator t0 < length (steps t0) \<longrightarrow> step_iterator t < length (steps t))"
proof -
  have "steps t0 \<noteq> [] \<longrightarrow> step_type (steps t0 ! (length (steps t0) - 1)) \<noteq> ''Python''"
    using assms(3) by (simp add: last_conv_nth)
  then have inv: "(steps t \<noteq> [] \<longrightarrow> step_type (steps t ! (length (steps t) - 1)) \<noteq> ''Python'')
                 \<and> (done_task t \<longrightarrow> last_step_done t)"
    using polls_invariant[OF assms(1,2)] by blast
  then have a: "step_iterator t + 1 = length (steps t) \<longrightarrow>
                step_type (steps t ! step_iterator t) \<noteq> ''Python''"
    using last_step_at_cursor[of t] by blast
  show ?thesis
    using inv execute_step_done_task[OF _ a, of e w] polls_cursor_in_range[OF assms(1)] by blast
qed

theorem done_exactly_after_last_step_done_witness:
  "polls (task_of ''local'' [python_step (\<lambda>w. (False, w)), script_step])
     (upd_current (\<lambda>s. s\<lparr>done_step := True\<rparr>)
        (upd_current (\<lambda>s. s\<lparr>in_progress := True\<rparr>)
           (next_step (task_of ''local'' [python_step (\<lambda>w. (False, w)), script_step]))))
   \<and> \<not> done_task (task_of ''local'' [python_step (\<lambda>w. (False, w)), script_step])
   \<and> map step_type (steps (task_of ''local'' [python_step (\<lambda>w. (False, w)), script_step]))
       = [''Python'', ''Script'']
   \<and> \<not> done_task (upd_current (\<lambda>s. s\<lparr>done_step := True\<rparr>)
        (upd_current (\<lambda>s. s\<lparr>in_progress := True\<rparr>)
           (next_step (task_of ''local'' [python_step (\<lambda>w. (False, w)), script_step]))))
   \<and> last_step_done (upd_current (\<lambda>s. s\<lparr>done_step := True\<rparr>)
        (upd_current (\<lambda>s. s\<lparr>in_progress := True\<rparr>)
           (next_step (task_of ''local'' [python_step (\<lambda>w. (False, w)), script_step]))))
   \<and> done_task (fst (snd (execute_step env0
        (upd_current (\<lambda>s. s\<lparr>done_step := True\<rparr>)
           (upd_current (\<lambda>s. s\<lparr>in_progress := True\<rparr>)
              (next_step (task_of ''local'' [python_step (\<lambda>w. (False, w)), script_step]))))
        world0)))
   \<and> step_iterator (upd_current (\<lambda>s. s\<lparr>done_step := True\<rparr>)
        (upd_current (\<lambda>s. s\<lparr>in_progress := True\<rparr>)
           (next_step (task_of ''local'' [python_step (\<lambda>w. (False, w)), script_step])))) = 1"
proof -
  let ?t0 = "task_of ''local'' [python_step (\<lambda>w. (False, w)), script_step]"
  let ?t3 = "upd_current (\<lambda>s. s\<lparr>done_step := True\<rparr>)
        (upd_current (\<lambda>s. s\<lparr>in_progress := True\<rparr>) (next_step ?t0))"
  have h1: "polls ?t0 ?t3" by (rule two_step_run)
  have h2: "\<not> done_task ?t0" by (simp add: task_of_def)
  have m: "map step_type (steps ?t0) = [''Python'', ''Script'']"
    by (simp add: task_of_def python_step_def script_step_def)
  have h3: "steps ?t0 \<noteq> [] \<longrightarrow> step_type (last (steps ?t0)) \<noteq> ''Python''"
    by (simp add: task_of_def script_step_def)
  have d: "\<not> done_task ?t3" "step_iterator ?t3 = 1"
    unfolding two_step_run_end by (simp_all add: task_of_def)
  have l: "last_step_done ?t3"
    unfolding two_step_run_end by (simp add: last_step_done_def task_of_def)
  note r = done_exactly_after_last_step_done[OF h1 h2 h3, of env0 world0]
  from r d(1) l have "done_task (fst (snd (execute_step env0 ?t3 world0)))"
    by blast
  then show ?thesis using h1 h2 m d l by blast
qed

text \<open>
  The claim as stated fails on a task whose only step is a Python step: after one call
  the task is done, although the cursor still addresses the last step, not past it,
  and that step is not marked done.
\<close>

theorem done_with_python_last_step:
  "\<not> done_task (task_of ''local'' [python_step (\<lambda>w. (False, w))])
   \<and> done_task (fst (snd (execute_step env0
                    (task_of ''local'' [python_step (\<lambda>w. (False, w))]) world0)))
   \<and> step_iterator (fst (snd (execute_step env0
                    (task_of ''local'' [python_step (\<lambda>w. (False, w))]) world0)))
       < length (steps (fst (snd (execute_step env0
                    (task_of ''local'' [python_step (\<lambda>w. (False, w))]) world0))))
   \<and> \<not> done_step (last (steps (fst (snd (execute_step env0
                    (task_of ''local'' [python_step (\<lambda>w. (False, w))]) world0)))))"
  by (simp add: execute_step_def task_of_def python_step_def next_step_def Let_def)

end
